theory Spec2Isabelle
  imports Main "HOL-Library.AList"
begin

section \<open>The order controller of store.js\<close>

text \<open>
  The class \<open>Store\<close> of \<^verbatim>\<open>public/javascripts/store.js\<close> keeps a catalog of products, a
  quantity per product and the line items of the order, shows the totals in the page and
  posts the order to the backend. The embedding follows the class method by method.
  JavaScript numbers are modelled by the integers they hold in this program (prices in
  the catalog, and what \<open>parseInt\<close> returns), together with \<open>NaN\<close> and \<open>undefined\<close>
  where the code can produce them. The numbers of the engine are doubles, so every
  number read and every result of \<open>+\<close> and \<open>*\<close> is rounded to the nearest double
  (\<open>to_double\<close> below).
\<close>

subsection \<open>Values\<close>

datatype jsval = JNum int | JNaN | JUndefined

text \<open>Truthiness, as the conditional operator and \<open>!\<close> read a value.\<close>

fun truthy :: "jsval \<Rightarrow> bool" where
  "truthy (JNum n) = (n \<noteq> 0)"
| "truthy JNaN = False"
| "truthy JUndefined = False"

text \<open>The expression \<open>quantity ? quantity : 0\<close>, whose value is always an integer.\<close>

fun or_zero :: "jsval \<Rightarrow> int" where
  "or_zero (JNum n) = (if n \<noteq> 0 then n else 0)"
| "or_zero JNaN = 0"
| "or_zero JUndefined = 0"

subsection \<open>Doubles\<close>

text \<open>
  An integer of magnitude up to \<open>2^53\<close> is a double. A larger one has more than 53
  significant bits (\<open>bits\<close> counts them), and the double nearest to it keeps the upper
  53 and rounds on the \<open>e\<close> bits below them: up when they are more than half, to the
  even one of the two neighbours when they are exactly half. The numbers of this program
  are integers, and so are the doubles nearest to their sums and products. A magnitude
  that reaches \<open>2^1024\<close> is \<open>Infinity\<close> in the engine and lies outside the model; a
  price is the double that the engine read from the answer of the backend.
\<close>

function bits :: "nat \<Rightarrow> nat" where
  "bits n = (if n = 0 then 0 else bits (n div 2) + 1)"
  by pat_completeness auto
termination
  by (relation "measure (\<lambda>n. n)") auto

declare bits.simps [simp del]

definition to_double :: "int \<Rightarrow> int" where
  "to_double i =
     (let n = nat \<bar>i\<bar>;
          e = bits n - 53;
          m = n div 2 ^ e;
          r = n mod 2 ^ e;
          up = (2 ^ e < 2 * r \<or> (2 * r = 2 ^ e \<and> odd m))
      in sgn i * int ((if up then Suc m else m) * 2 ^ e))"

text \<open>The product \<open>price * quantity\<close> of a catalog price and a value.\<close>

fun js_times :: "int \<Rightarrow> jsval \<Rightarrow> jsval" where
  "js_times p (JNum n) = JNum (to_double (p * n))"
| "js_times p JNaN = JNaN"
| "js_times p JUndefined = JNaN"

text \<open>
  Exceptions carry their message, which the \<open>catch\<close> blocks of the class read. The
  message of a \<open>TypeError\<close> raised by the engine is engine-specific; the model fixes one.
\<close>

datatype exn = TypeError string | RangeError string | Error string

fun message :: "exn \<Rightarrow> string" where
  "message (TypeError m) = m"
| "message (RangeError m) = m"
| "message (Error m) = m"

definition undefined_property :: exn where
  "undefined_property = TypeError ''Cannot read properties of undefined''"

definition null_property :: exn where
  "null_property = TypeError ''Cannot read properties of null''"

subsection \<open>Decimal numerals\<close>

definition digit_char :: "nat \<Rightarrow> char" where
  "digit_char d = ''0123456789'' ! d"

function decimal :: "nat \<Rightarrow> string" where
  "decimal n = (if n < 10 then [digit_char n] else decimal (n div 10) @ [digit_char (n mod 10)])"
  by pat_completeness auto
termination
  by (relation "measure (\<lambda>n. n)") auto

declare decimal.simps [simp del]

definition show_int :: "int \<Rightarrow> string" where
  "show_int i = (if i < 0 then CHR ''-'' # decimal (nat (- i)) else decimal (nat i))"

subsection \<open>parseInt\<close>

text \<open>
  \<open>parseInt(string)\<close> with no radix, after ECMA-262: leading white space is skipped, a
  sign is read, a prefix \<open>0x\<close> or \<open>0X\<close> selects radix 16, and the longest run of digits
  of the radix is the number, rounded to a double; with no digit the result is \<open>NaN\<close>.
  Strings are strings of bytes in UTF-8. \<open>white_space\<close> lists the white space and the
  line terminators of ECMA-262 in that encoding: tab, line feed, vertical tab, form feed,
  carriage return and space, then U+00A0, U+1680, U+2000 to U+200A, U+2028, U+2029,
  U+202F, U+205F, U+3000 and U+FEFF.
\<close>

definition white_space :: "string list" where
  "white_space =
     [[CHR 0x09], [CHR 0x0A], [CHR 0x0B], [CHR 0x0C], [CHR 0x0D], [CHR 0x20],
      [CHR 0xC2, CHR 0xA0], [CHR 0xE1, CHR 0x9A, CHR 0x80],
      [CHR 0xE2, CHR 0x80, CHR 0x80], [CHR 0xE2, CHR 0x80, CHR 0x81],
      [CHR 0xE2, CHR 0x80, CHR 0x82], [CHR 0xE2, CHR 0x80, CHR 0x83],
      [CHR 0xE2, CHR 0x80, CHR 0x84], [CHR 0xE2, CHR 0x80, CHR 0x85],
      [CHR 0xE2, CHR 0x80, CHR 0x86], [CHR 0xE2, CHR 0x80, CHR 0x87],
      [CHR 0xE2, CHR 0x80, CHR 0x88], [CHR 0xE2, CHR 0x80, CHR 0x89],
      [CHR 0xE2, CHR 0x80, CHR 0x8A], [CHR 0xE2, CHR 0x80, CHR 0xA8],
      [CHR 0xE2, CHR 0x80, CHR 0xA9], [CHR 0xE2, CHR 0x80, CHR 0xAF],
      [CHR 0xE2, CHR 0x81, CHR 0x9F], [CHR 0xE3, CHR 0x80, CHR 0x80],
      [CHR 0xEF, CHR 0xBB, CHR 0xBF]]"

text \<open>The white space character, if any, that a string begins with.\<close>

definition leading_space :: "string \<Rightarrow> string option" where
  "leading_space s = find (\<lambda>w. w \<noteq> [] \<and> take (length w) s = w) white_space"

function trim_start :: "string \<Rightarrow> string" where
  "trim_start s =
     (case leading_space s of
        None \<Rightarrow> s
      | Some w \<Rightarrow> trim_start (drop (length w) s))"
  by pat_completeness auto
termination
proof (relation "measure length")
  show "wf (measure length)" by simp
next
  fix s :: string and w
  assume "leading_space s = Some w"
  then have "w \<noteq> []" and "take (length w) s = w"
    by (auto simp: leading_space_def find_Some_iff)
  then have "s \<noteq> []" by auto
  with \<open>w \<noteq> []\<close> show "(drop (length w) s, s) \<in> measure length" by simp
qed

declare trim_start.simps [simp del]

definition digit_value :: "char \<Rightarrow> nat option" where
  "digit_value c =
     (let n = (of_char c :: nat) in
      if 48 \<le> n \<and> n \<le> 57 then Some (n - 48)
      else if 97 \<le> n \<and> n \<le> 122 then Some (n - 87)
      else if 65 \<le> n \<and> n \<le> 90 then Some (n - 55)
      else None)"

definition radix_digit :: "nat \<Rightarrow> char \<Rightarrow> bool" where
  "radix_digit r c = (case digit_value c of None \<Rightarrow> False | Some d \<Rightarrow> d < r)"

fun radix_value :: "nat \<Rightarrow> nat \<Rightarrow> string \<Rightarrow> nat" where
  "radix_value r acc [] = acc"
| "radix_value r acc (c # cs) =
     radix_value r (case digit_value c of None \<Rightarrow> acc | Some d \<Rightarrow> acc * r + d) cs"

fun strip_sign :: "string \<Rightarrow> int \<times> string" where
  "strip_sign [] = (1, [])"
| "strip_sign (c # cs) =
     (if c = CHR ''-'' then (- 1, cs) else if c = CHR ''+'' then (1, cs) else (1, c # cs))"

fun strip_prefix :: "string \<Rightarrow> nat \<times> string" where
  "strip_prefix (a # b # cs) =
     (if a = CHR ''0'' \<and> (b = CHR ''x'' \<or> b = CHR ''X'') then (16, cs) else (10, a # b # cs))"
| "strip_prefix cs = (10, cs)"

definition parseInt :: "string \<Rightarrow> jsval" where
  "parseInt inputString =
     (let (sign, S) = strip_sign (trim_start inputString);
          (R, S') = strip_prefix S;
          Z = takeWhile (radix_digit R) S'
      in if Z = [] then JNaN else JNum (to_double (sign * int (radix_value R 0 Z))))"

subsection \<open>The catalog\<close>

record sku =
  sku_id :: string
  price :: int
  sku_currency :: string

text \<open>
  The bodies that the backend sends are taken to have the shape the code reads: a SKU
  has an id, an integer price, a currency and its \<open>attributes\<close>; the configuration has a
  publishable key and a currency. What may be missing is modelled as such.
\<close>

text \<open>
  A product as \<open>/products\<close> returns it. \<open>skus\<close> is the list \<open>product.skus.data\<close>, and
  \<open>None\<close> when the product carries no \<open>skus\<close> object.
\<close>

record product =
  product_id :: string
  product_name :: string
  skus :: "sku list option"

record lineItem =
  li_product :: string
  li_sku :: string
  li_quantity :: jsval

text \<open>An item of the order as \<open>getLineItems\<close> exposes it; its \<open>type\<close> is always \<open>'sku'\<close>.\<close>

record orderItem =
  parent :: string
  oi_quantity :: jsval

record config =
  stripePublishableKey :: string
  currency :: string

text \<open>The body of the answer to a payment-intent request: both fields may be absent.\<close>

record intentData =
  data_paymentIntent :: "string option"
  data_error :: "string option"

datatype intentRef = NullRef | UndefinedRef | IntentRef string

subsection \<open>formatPrice\<close>

text \<open>
  \<open>amount.toFixed(2)\<close> on an integer writes it with the fraction \<open>.00\<close>; on \<open>NaN\<close> it gives
  \<open>"NaN"\<close>, and on \<open>undefined\<close> the property access raises.
\<close>

definition toFixed2 :: "jsval \<Rightarrow> exn + string" where
  "toFixed2 amount =
     (case amount of
        JNum n \<Rightarrow> Inr (show_int n @ ''.00'')
      | JNaN \<Rightarrow> Inr ''NaN''
      | JUndefined \<Rightarrow> Inl undefined_property)"

text \<open>
  The platform's \<open>Intl.NumberFormat(['en-US'], {style: 'currency', currency,
  currencyDisplay: 'symbol'})\<close> (ECMA-402 with the CLDR data of \<open>en-US\<close>). The
  constructor raises on a missing or ill-formed currency code and reads the code without
  regard to case. The formatter writes the sign, the symbol of the currency, the integer
  digits grouped by thousands and the decimals of the currency. \<open>currency_symbols\<close>
  holds the symbols that \<open>en-US\<close> has for a currency; any other code is shown as the
  code itself. A symbol that ends in a letter is set off from the digits by a no-break
  space. \<open>no_decimals\<close> and \<open>three_decimals\<close> hold the currencies written with no
  and with three decimals; the others are written with two.
\<close>

definition is_alpha :: "char \<Rightarrow> bool" where
  "is_alpha c = (let n = (of_char c :: nat) in (65 \<le> n \<and> n \<le> 90) \<or> (97 \<le> n \<and> n \<le> 122))"

definition to_upper :: "char \<Rightarrow> char" where
  "to_upper c =
     (case map_of (zip ''abcdefghijklmnopqrstuvwxyz'' ''ABCDEFGHIJKLMNOPQRSTUVWXYZ'') c of
        None \<Rightarrow> c
      | Some u \<Rightarrow> u)"

definition numberFormat :: "string option \<Rightarrow> exn + string" where
  "numberFormat cur =
     (case cur of
        None \<Rightarrow> Inl (TypeError ''Currency code is required with currency style.'')
      | Some c \<Rightarrow>
          if length c = 3 \<and> list_all is_alpha c then Inr (map to_upper c)
          else Inl (RangeError ''Invalid currency code''))"

definition currency_symbols :: "(string \<times> string) list" where
  "currency_symbols =
     [(''USD'', ''$''),
      (''EUR'', [CHR 0xE2, CHR 0x82, CHR 0xAC]),
      (''GBP'', [CHR 0xC2, CHR 0xA3]),
      (''JPY'', [CHR 0xC2, CHR 0xA5]),
      (''CAD'', ''CA$''),
      (''AUD'', ''A$''),
      (''INR'', [CHR 0xE2, CHR 0x82, CHR 0xB9]),
      (''CNY'', [CHR ''C'', CHR ''N'', CHR 0xC2, CHR 0xA5]),
      (''HKD'', ''HK$''),
      (''MXN'', ''MX$''),
      (''NZD'', ''NZ$''),
      (''BRL'', ''R$''),
      (''TWD'', ''NT$''),
      (''XCD'', ''EC$''),
      (''KRW'', [CHR 0xE2, CHR 0x82, CHR 0xA9]),
      (''ILS'', [CHR 0xE2, CHR 0x82, CHR 0xAA]),
      (''VND'', [CHR 0xE2, CHR 0x82, CHR 0xAB]),
      (''PHP'', [CHR 0xE2, CHR 0x82, CHR 0xB1]),
      (''XAF'', ''FCFA''),
      (''XOF'', ''F'' @ [CHR 0xE2, CHR 0x80, CHR 0xAF] @ ''CFA''),
      (''XPF'', ''CFPF'')]"

definition currency_symbol :: "string \<Rightarrow> string" where
  "currency_symbol code = (case map_of currency_symbols code of None \<Rightarrow> code | Some symbol \<Rightarrow> symbol)"

definition no_decimals :: "string list" where
  "no_decimals =
     [''JPY'', ''KRW'', ''VND'', ''CLP'', ''ISK'', ''PYG'', ''UGX'', ''VUV'', ''BIF'', ''DJF'',
      ''GNF'', ''KMF'', ''RWF'', ''XAF'', ''XOF'', ''XPF'']"

definition three_decimals :: "string list" where
  "three_decimals = [''BHD'', ''JOD'', ''KWD'', ''OMR'', ''TND'', ''LYD'']"

definition currency_decimals :: "string \<Rightarrow> string" where
  "currency_decimals code =
     (if code \<in> set no_decimals then []
      else if code \<in> set three_decimals then ''.000''
      else ''.00'')"

definition spaced :: "string \<Rightarrow> string" where
  "spaced symbol =
     (if symbol \<noteq> [] \<and> is_alpha (last symbol) then symbol @ [CHR 0xC2, CHR 0xA0] else symbol)"

text \<open>Grouping by thousands, on the digits in reverse.\<close>

fun commas :: "string \<Rightarrow> string" where
  "commas (a # b # c # d # ds) = a # b # c # CHR '','' # commas (d # ds)"
| "commas ds = ds"

definition group_digits :: "string \<Rightarrow> string" where
  "group_digits ds = rev (commas (rev ds))"

text \<open>
  \<open>format\<close> is given the string that \<open>toFixed\<close> made and turns it into a number again:
  \<open>to_number\<close> is \<open>ToNumber\<close> on a decimal numeral whose fraction is absent or \<open>.00\<close>,
  and \<open>NaN\<close> on any other string.
\<close>

definition is_decimal :: "char \<Rightarrow> bool" where
  "is_decimal c = radix_digit 10 c"

definition to_number :: "string \<Rightarrow> jsval" where
  "to_number s =
     (let (sign, r) = (case s of [] \<Rightarrow> (1, []) | c # cs \<Rightarrow> if c = CHR ''-'' then (- 1, cs) else (1, s));
          ds = takeWhile is_decimal r;
          fraction = dropWhile is_decimal r
      in if ds \<noteq> [] \<and> (fraction = [] \<or> fraction = ''.00'')
         then JNum (to_double (sign * int (radix_value 10 0 ds))) else JNaN)"

definition format :: "string \<Rightarrow> string \<Rightarrow> string" where
  "format code number_text =
     (case to_number number_text of
        JNum n \<Rightarrow>
          (if n < 0 then ''-'' else []) @ spaced (currency_symbol code)
            @ group_digits (decimal (nat \<bar>n\<bar>)) @ currency_decimals code
      | _ \<Rightarrow> currency_symbol code @ ''NaN'')"

definition formatPrice :: "jsval \<Rightarrow> string option \<Rightarrow> exn + string" where
  "formatPrice amount cur =
     (case toFixed2 amount of
        Inl e \<Rightarrow> Inl e
      | Inr price_text \<Rightarrow>
          (case numberFormat cur of
             Inl e \<Rightarrow> Inl e
           | Inr code \<Rightarrow> Inr (format code price_text)))"

subsection \<open>The page and the network\<close>

text \<open>
  The elements of the page that the class reads and writes: the value of each input
  \<open>quantity-input-<id>\<close>, the text of each element \<open>price-<id>\<close>, the texts of the
  elements marked \<open>data-subtotal\<close> and \<open>data-total\<close> inside \<open>order-total\<close>, the
  label of the submit button of \<open>payment-form\<close>, and whether the demo notice is hidden.
  The inputs and the price elements are created by \<open>displayPaymentSummary\<close>; the others
  belong to the markup of the page and are taken to exist.
\<close>

record dom =
  inputs :: "string \<rightharpoonup> string"
  prices :: "string \<rightharpoonup> string"
  subtotal_text :: string
  total_text :: string
  button_text :: string
  demo_hidden :: bool

text \<open>The calls of \<open>fetch\<close>, as a log: the path, and for a POST the fields of the body.\<close>

datatype body =
  IntentBody string "orderItem list"
| ShippingBody string "orderItem list"
| ChargeBody string int string string

datatype request = Get string | Post string body

text \<open>
  How a \<open>fetch\<close> and the \<open>response.json()\<close> after it come out: either promise may
  reject, or the body is read. The outcome is an input of the model.
\<close>

datatype 'a outcome = FetchRejects exn | JsonRejects exn | Json 'a

text \<open>What an operation returns, and how the promise of an \<open>async\<close> method settles.\<close>

datatype 'a reply = ReturnsUndefined | ErrorObject string | Payload 'a

datatype 'a settled = Fulfilled 'a | Rejected exn

text \<open>
  Where the executor of the promise in \<open>loadProducts\<close> stands: not started, waiting for
  \<open>/products\<close>, inside \<open>loadSkus\<close> for one product with the rest of the list still to
  visit, past \<open>resolve()\<close>, or ended by an exception before \<open>resolve()\<close>.
\<close>

datatype loader = Idle | AwaitingProducts | AwaitingSkus string "product list" | Resolved | Abandoned

subsection \<open>The store\<close>

text \<open>
  The fields of \<open>Store\<close>, followed by the environment the methods act on. \<open>products\<close>
  is an object used as a dictionary, kept as an association list in the order in which
  its keys were first assigned. A promise is named by its
  number; \<open>promises\<close> counts the promises \<open>loadProducts\<close> has created.
  \<open>intents_in_flight\<close> counts the calls of \<open>createPaymentIntent\<close> that wait for their
  answer, and \<open>summary_waiting\<close> says that \<open>displayPaymentSummary\<close> waits for the
  catalog.
\<close>

record store =
  lineItems :: "lineItem list"
  products :: "(string \<times> product) list"
  quantity :: "string \<rightharpoonup> int"
  config :: "config option"
  productsFetchPromise :: "nat option"
  paymentIntent :: intentRef
  document :: dom
  requests :: "request list"
  console :: "string list"
  loader :: loader
  promises :: nat
  intents_in_flight :: nat
  summary_waiting :: bool

text \<open>
  \<open>Object.entries\<close> visits the keys that are array indices first, in ascending order,
  and the other keys after them in the order of their insertion. An array index is the
  decimal numeral, without leading zeros, of an integer below \<open>2^32 - 1\<close>.
\<close>

definition array_index :: "string \<Rightarrow> bool" where
  "array_index k =
     (k \<noteq> [] \<and> list_all is_decimal k \<and> (hd k \<noteq> CHR ''0'' \<or> k = ''0'')
      \<and> radix_value 10 0 k < 4294967295)"

definition object_entries :: "(string \<times> 'a) list \<Rightarrow> (string \<times> 'a) list" where
  "object_entries obj =
     sort_key (\<lambda>entry. radix_value 10 0 (fst entry)) (filter (\<lambda>entry. array_index (fst entry)) obj)
       @ filter (\<lambda>entry. \<not> array_index (fst entry)) obj"

subsection \<open>getPaymentTotal and getLineItems\<close>

text \<open>
  \<open>this.products[product].skus.data[0].price\<close>: the access raises when the product is
  not in the catalog, has no \<open>skus\<close>, or has an empty list of them.
\<close>

definition unit_price :: "store \<Rightarrow> string \<Rightarrow> exn + int" where
  "unit_price s pid =
     (case map_of (products s) pid of
        None \<Rightarrow> Inl undefined_property
      | Some p \<Rightarrow>
          (case skus p of
             None \<Rightarrow> Inl undefined_property
           | Some [] \<Rightarrow> Inl undefined_property
           | Some (k # ks) \<Rightarrow> Inr (price k)))"

fun reduce_total :: "store \<Rightarrow> int \<Rightarrow> lineItem list \<Rightarrow> exn + int" where
  "reduce_total s acc [] = Inr acc"
| "reduce_total s acc (item # items) =
     (case unit_price s (li_product item) of
        Inl e \<Rightarrow> Inl e
      | Inr p \<Rightarrow>
          reduce_total s (to_double (acc + to_double (or_zero (li_quantity item) * p))) items)"

definition getPaymentTotal :: "store \<Rightarrow> exn + int" where
  "getPaymentTotal s = reduce_total s 0 (lineItems s)"

definition getLineItems :: "store \<Rightarrow> orderItem list" where
  "getLineItems s =
     map (\<lambda>item. \<lparr>parent = li_sku item, oi_quantity = li_quantity item\<rparr>) (lineItems s)"

subsection \<open>Showing the totals\<close>

text \<open>
  \<open>rerenderTotal\<close> raises when \<open>getPaymentTotal\<close> or \<open>formatPrice\<close> does, before it
  has written anything. \<open>paymentTotal ? paymentTotal : 0\<close> is \<open>or_zero\<close>.
\<close>

definition rerenderTotal :: "string option \<Rightarrow> store \<Rightarrow> (exn + string) \<times> store" where
  "rerenderTotal cur s =
     (case getPaymentTotal s of
        Inl e \<Rightarrow> (Inl e, s)
      | Inr paymentTotal \<Rightarrow>
          (case formatPrice (JNum (or_zero (JNum paymentTotal))) cur of
             Inl e \<Rightarrow> (Inl e, s)
           | Inr displayTotal \<Rightarrow>
               (Inr displayTotal,
                s\<lparr>document := (document s)\<lparr>subtotal_text := displayTotal,
                                               total_text := displayTotal\<rparr>\<rparr>)))"

definition updateButtonLabel :: "string \<Rightarrow> store \<Rightarrow> store" where
  "updateButtonLabel amount s = s\<lparr>document := (document s)\<lparr>button_text := ''Pay '' @ amount\<rparr>\<rparr>"

text \<open>
  The loop of \<open>updateTotal\<close> over \<open>Object.entries(this.products)\<close>, carrying the local
  \<open>currency\<close>. One round raises when the product has no first SKU, when \<open>formatPrice\<close>
  raises, or when the element \<open>price-<id>\<close> is missing, in this order, and writes the
  text of the element otherwise.
\<close>

definition quantity_value :: "store \<Rightarrow> string \<Rightarrow> jsval" where
  "quantity_value s pid = (case quantity s pid of None \<Rightarrow> JUndefined | Some q \<Rightarrow> JNum q)"

fun updateTotal_loop ::
  "(string \<times> product) list \<Rightarrow> string option \<Rightarrow> store \<Rightarrow> (exn + string option) \<times> store" where
  "updateTotal_loop [] cur s = (Inr cur, s)"
| "updateTotal_loop ((pid, product) # entries) cur s =
     (case skus product of
        None \<Rightarrow> (Inl undefined_property, s)
      | Some [] \<Rightarrow> (Inl undefined_property, s)
      | Some (sku # ks) \<Rightarrow>
          (case formatPrice (JNum (or_zero (js_times (price sku) (quantity_value s pid))))
                  (Some (sku_currency sku)) of
             Inl e \<Rightarrow> (Inl e, s)
           | Inr displayItemTotal \<Rightarrow>
               (case prices (document s) pid of
                  None \<Rightarrow> (Inl null_property, s)
                | Some old \<Rightarrow>
                    updateTotal_loop entries (Some (sku_currency sku))
                      (s\<lparr>document := (document s)
                           \<lparr>prices := (prices (document s))(pid \<mapsto> displayItemTotal)\<rparr>\<rparr>))))"

definition updateTotal :: "store \<Rightarrow> exn option \<times> store" where
  "updateTotal s =
     (case updateTotal_loop (object_entries (products s)) None s of
        (Inl e, s1) \<Rightarrow> (Some e, s1)
      | (Inr cur, s1) \<Rightarrow>
          (case rerenderTotal cur s1 of
             (Inl e, s2) \<Rightarrow> (Some e, s2)
           | (Inr displayedTotal, s2) \<Rightarrow> (None, updateButtonLabel displayedTotal s2)))"

subsection \<open>createPaymentIntent\<close>

text \<open>
  The method up to its first \<open>await\<close>: it returns at once when no item has a truthy
  quantity, and calls \<open>fetch\<close> otherwise. The flag says whether it now waits for the
  answer.
\<close>

definition createPaymentIntent_call :: "string \<Rightarrow> orderItem list \<Rightarrow> store \<Rightarrow> bool \<times> store" where
  "createPaymentIntent_call cur items s =
     (if list_all (\<lambda>i. \<not> truthy (oi_quantity i)) items then (False, s)
      else (True, s\<lparr>requests := requests s @ [Post ''/payment_intents'' (IntentBody cur items)],
                     intents_in_flight := Suc (intents_in_flight s)\<rparr>))"

text \<open>
  The rest of the method, run when the answer is there. \<open>store.paymentIntent\<close> is the
  field of this same object, \<open>window.store\<close>. \<open>data.error\<close> is truthy when the field is
  there and is not the empty string.
\<close>

definition createPaymentIntent_settle ::
  "intentData outcome \<Rightarrow> store \<Rightarrow> intentData reply settled \<times> store" where
  "createPaymentIntent_settle out s =
     (let s0 = s\<lparr>intents_in_flight := intents_in_flight s - 1\<rparr> in
      case out of
        FetchRejects err \<Rightarrow> (Fulfilled (ErrorObject (message err)), s0)
      | JsonRejects err \<Rightarrow> (Fulfilled (ErrorObject (message err)), s0)
      | Json data \<Rightarrow>
          (let s1 = s0\<lparr>paymentIntent :=
                      (case data_paymentIntent data of
                         None \<Rightarrow> UndefinedRef
                       | Some p \<Rightarrow> IntentRef p)\<rparr>
           in case data_error data of
                None \<Rightarrow> (Fulfilled (Payload data), s1)
              | Some e \<Rightarrow>
                  if e \<noteq> [] then (Fulfilled (ErrorObject e), s1)
                  else (Fulfilled (Payload data), s1)))"

text \<open>The whole method, when nothing else runs between the request and its answer.\<close>

definition createPaymentIntent ::
  "string \<Rightarrow> orderItem list \<Rightarrow> intentData outcome \<Rightarrow> store \<Rightarrow> intentData reply settled \<times> store" where
  "createPaymentIntent cur items out s =
     (case createPaymentIntent_call cur items s of
        (False, s1) \<Rightarrow> (Fulfilled ReturnsUndefined, s1)
      | (True, s1) \<Rightarrow> createPaymentIntent_settle out s1)"

definition updatePaymentIntentWithShippingCost ::
  "string \<Rightarrow> orderItem list \<Rightarrow> string \<Rightarrow> intentData outcome \<Rightarrow> store
     \<Rightarrow> intentData reply settled \<times> store" where
  "updatePaymentIntentWithShippingCost intent items shippingOption out s =
     (let s1 = s\<lparr>requests := requests s @
                  [Post (''/payment_intents/'' @ intent @ ''/shipping_change'')
                     (ShippingBody shippingOption items)]\<rparr>
      in case out of
           FetchRejects err \<Rightarrow> (Fulfilled (ErrorObject (message err)), s1)
         | JsonRejects err \<Rightarrow> (Fulfilled (ErrorObject (message err)), s1)
         | Json data \<Rightarrow>
             (case data_error data of
                None \<Rightarrow> (Fulfilled (Payload data), s1)
              | Some e \<Rightarrow>
                  if e \<noteq> [] then (Fulfilled (ErrorObject e), s1)
                  else (Fulfilled (Payload data), s1)))"

subsection \<open>updateQuantity\<close>

text \<open>\<open>this.lineItems.find(item => item.product === id)\<close> and the assignment to its quantity.\<close>

fun set_quantity :: "string \<Rightarrow> jsval \<Rightarrow> lineItem list \<Rightarrow> lineItem list" where
  "set_quantity pid q [] = []"
| "set_quantity pid q (item # items) =
     (if li_product item = pid then item\<lparr>li_quantity := q\<rparr> # items
      else item # set_quantity pid q items)"

text \<open>
  The handler of the quantity inputs. It raises before any change when the input element
  is missing, passes on what \<open>updateTotal\<close> raises, and raises on \<open>this.config.currency\<close>
  while the configuration is still \<open>null\<close>; whatever was written before stays written.
  The call of \<open>createPaymentIntent\<close> is not awaited.
\<close>

definition updateQuantity :: "string \<Rightarrow> store \<Rightarrow> exn option \<times> store" where
  "updateQuantity pid s =
     (case inputs (document s) pid of
        None \<Rightarrow> (Some null_property, s)
      | Some v \<Rightarrow>
          (let q = parseInt v;
               s1 = s\<lparr>quantity := (quantity s)(pid \<mapsto> or_zero q)\<rparr>;
               s2 = s1\<lparr>lineItems := set_quantity pid q (lineItems s1)\<rparr>
           in case updateTotal s2 of
                (Some e, s3) \<Rightarrow> (Some e, s3)
              | (None, s3) \<Rightarrow>
                  (case config s3 of
                     None \<Rightarrow> (Some null_property, s3)
                   | Some c \<Rightarrow>
                       (None, snd (createPaymentIntent_call (currency c) (getLineItems s3) s3)))))"

subsection \<open>getConfig, loadSkus and createCharge\<close>

text \<open>\<open>haystack.includes(needle)\<close> on strings.\<close>

fun includes_str :: "string \<Rightarrow> string \<Rightarrow> bool" where
  "includes_str [] needle = (needle = [])"
| "includes_str (c # cs) needle = (take (length needle) (c # cs) = needle \<or> includes_str cs needle)"

definition getConfig :: "config outcome \<Rightarrow> store \<Rightarrow> config reply settled \<times> store" where
  "getConfig out s =
     (let s1 = s\<lparr>requests := requests s @ [Get ''/config'']\<rparr> in
      case out of
        FetchRejects err \<Rightarrow> (Fulfilled (ErrorObject (message err)), s1)
      | JsonRejects err \<Rightarrow> (Fulfilled (ErrorObject (message err)), s1)
      | Json c \<Rightarrow>
          (let s2 = (if includes_str (stripePublishableKey c) ''live''
                     then s1\<lparr>document := (document s1)\<lparr>demo_hidden := True\<rparr>\<rparr> else s1)
           in (Fulfilled (Payload c), s2\<lparr>config := Some c\<rparr>)))"

text \<open>
  \<open>loadSkus\<close> in two parts, the call of \<open>fetch\<close> and what follows the answer. The
  assignment \<open>this.products[product_id].skus = skus\<close> raises inside the \<open>try\<close> when the
  product is not in the catalog. The method returns nothing when it succeeds.
\<close>

definition loadSkus_call :: "string \<Rightarrow> store \<Rightarrow> store" where
  "loadSkus_call pid s = s\<lparr>requests := requests s @ [Get (''/products/'' @ pid @ ''/skus'')]\<rparr>"

definition loadSkus_settle :: "string \<Rightarrow> sku list outcome \<Rightarrow> store \<Rightarrow> unit reply settled \<times> store" where
  "loadSkus_settle pid out s =
     (case out of
        FetchRejects err \<Rightarrow> (Fulfilled (ErrorObject (message err)), s)
      | JsonRejects err \<Rightarrow> (Fulfilled (ErrorObject (message err)), s)
      | Json ks \<Rightarrow>
          (case map_of (products s) pid of
             None \<Rightarrow> (Fulfilled (ErrorObject (message undefined_property)), s)
           | Some p \<Rightarrow>
               (Fulfilled ReturnsUndefined,
                s\<lparr>products := AList.update pid (p\<lparr>skus := Some ks\<rparr>) (products s)\<rparr>)))"

definition loadSkus :: "string \<Rightarrow> sku list outcome \<Rightarrow> store \<Rightarrow> unit reply settled \<times> store" where
  "loadSkus pid out s = loadSkus_settle pid out (loadSkus_call pid s)"

text \<open>
  \<open>createCharge\<close> computes the amount before its \<open>try\<close>, so an exception of
  \<open>getPaymentTotal\<close> rejects the promise of the method. Inside the \<open>try\<close>,
  \<open>this.config.currency\<close> raises while the configuration is \<open>null\<close>, before \<open>fetch\<close> is
  called. The \<open>catch\<close> writes to the console and the method then returns nothing.
\<close>

definition createCharge ::
  "string \<Rightarrow> string \<Rightarrow> string outcome \<Rightarrow> store \<Rightarrow> string reply settled \<times> store" where
  "createCharge token metadata out s =
     (case getPaymentTotal s of
        Inl e \<Rightarrow> (Rejected e, s)
      | Inr amount \<Rightarrow>
          (case config s of
             None \<Rightarrow>
               (Fulfilled ReturnsUndefined, s\<lparr>console := console s @ [''failed to create a charge'']\<rparr>)
           | Some c \<Rightarrow>
               (let s1 = s\<lparr>requests := requests s @
                            [Post ''/charges'' (ChargeBody token amount (currency c) metadata)]\<rparr>
                in case out of
                     Json charge \<Rightarrow> (Fulfilled (Payload charge), s1)
                   | FetchRejects err \<Rightarrow>
                       (Fulfilled ReturnsUndefined,
                        s1\<lparr>console := console s1 @ [''failed to create a charge'']\<rparr>)
                   | JsonRejects err \<Rightarrow>
                       (Fulfilled ReturnsUndefined,
                        s1\<lparr>console := console s1 @ [''failed to create a charge'']\<rparr>))))"

subsection \<open>loadProducts\<close>

text \<open>
  \<open>loadProducts\<close> creates the promise on its first call only. The executor runs at once
  up to its first \<open>await\<close>, that is, it calls \<open>fetch('/products')\<close>.
\<close>

definition loadProducts :: "store \<Rightarrow> nat \<times> store" where
  "loadProducts s =
     (case productsFetchPromise s of
        None \<Rightarrow>
          (promises s,
           s\<lparr>productsFetchPromise := Some (promises s),
             promises := Suc (promises s),
             requests := requests s @ [Get ''/products''],
             loader := AwaitingProducts\<rparr>)
      | Some p \<Rightarrow> (p, s))"

text \<open>
  The \<open>for\<close> loop of the executor from one product on, up to the next \<open>await\<close>: at a
  product without \<open>skus\<close> it stops inside \<open>loadSkus\<close>, and past the last product it
  calls \<open>resolve()\<close>.
\<close>

fun products_loop :: "product list \<Rightarrow> store \<Rightarrow> store" where
  "products_loop [] s = s\<lparr>loader := Resolved\<rparr>"
| "products_loop (product # rest) s =
     (let s1 = s\<lparr>products := AList.update (product_id product) product (products s),
                  quantity := (quantity s)(product_id product \<mapsto> 0)\<rparr>
      in case skus product of
           None \<Rightarrow> (loadSkus_call (product_id product) s1)\<lparr>loader := AwaitingSkus (product_id product) rest\<rparr>
         | Some ks \<Rightarrow> products_loop rest s1)"

subsection \<open>displayPaymentSummary\<close>

text \<open>
  The part of \<open>displayPaymentSummary\<close> after \<open>await this.loadProducts()\<close>. Each round
  of its loop makes the row of one product, with the input \<open>quantity-input-<id>\<close> and the
  element \<open>price-<id>\<close>, and pushes the line item. \<open>getElementById\<close> finds the first
  element of an id, so a row does not replace an element that is there already. A
  number input whose \<open>value\<close> attribute is not a number has the empty value.
\<close>

definition add_element :: "(string \<rightharpoonup> string) \<Rightarrow> string \<Rightarrow> string \<Rightarrow> (string \<rightharpoonup> string)" where
  "add_element m k v = (case m k of None \<Rightarrow> m(k \<mapsto> v) | Some old \<Rightarrow> m)"

definition input_value :: "jsval \<Rightarrow> string" where
  "input_value v = (case v of JNum n \<Rightarrow> show_int n | _ \<Rightarrow> [])"

fun summary_loop ::
  "(string \<times> product) list \<Rightarrow> string option \<Rightarrow> store \<Rightarrow> (exn + string option) \<times> store" where
  "summary_loop [] cur s = (Inr cur, s)"
| "summary_loop ((pid, product) # entries) cur s =
     (case skus product of
        None \<Rightarrow> (Inl undefined_property, s)
      | Some [] \<Rightarrow> (Inl undefined_property, s)
      | Some (sku # ks) \<Rightarrow>
          (case formatPrice (JNum (price sku)) (Some (sku_currency sku)) of
             Inl e \<Rightarrow> (Inl e, s)
           | Inr skuPrice \<Rightarrow>
               (case formatPrice (js_times (price sku) (quantity_value s pid)) (Some (sku_currency sku)) of
                  Inl e \<Rightarrow> (Inl e, s)
                | Inr lineItemPrice \<Rightarrow>
                    summary_loop entries (Some (sku_currency sku))
                      (s\<lparr>document := (document s)
                           \<lparr>inputs := add_element (inputs (document s)) (product_id product)
                                        (input_value (quantity_value s (product_id product))),
                            prices := add_element (prices (document s)) (product_id product)
                                        lineItemPrice\<rparr>,
                         lineItems := lineItems s @
                           [\<lparr>li_product = product_id product, li_sku = sku_id sku,
                             li_quantity = quantity_value s pid\<rparr>]\<rparr>))))"

definition displayPaymentSummary_resume :: "store \<Rightarrow> exn option \<times> store" where
  "displayPaymentSummary_resume s =
     (case summary_loop (object_entries (products s)) None s of
        (Inl e, s1) \<Rightarrow> (Some e, s1)
      | (Inr cur, s1) \<Rightarrow>
          (case rerenderTotal cur s1 of
             (Inl e, s2) \<Rightarrow> (Some e, s2)
           | (Inr displayTotal, s2) \<Rightarrow> (None, s2)))"

subsection \<open>The life of the page\<close>

text \<open>
  \<open>window.store = new Store()\<close> on a page whose elements are \<open>page\<close>: the constructor
  sets the fields (\<open>fresh\<close>), starts \<open>displayPaymentSummary\<close>, which calls
  \<open>loadProducts\<close> and waits, and sets \<open>paymentIntent\<close> to \<open>null\<close> last.
\<close>

definition fresh :: "dom \<Rightarrow> store" where
  "fresh page =
     \<lparr>lineItems = [], products = [], quantity = Map.empty, config = None,
      productsFetchPromise = None, paymentIntent = UndefinedRef, document = page,
      requests = [], console = [], loader = Idle, promises = 0,
      intents_in_flight = 0, summary_waiting = False\<rparr>"

definition new_Store :: "dom \<Rightarrow> store" where
  "new_Store page =
     (let s1 = (snd (loadProducts (fresh page)))\<lparr>summary_waiting := True\<rparr>
      in s1\<lparr>paymentIntent := NullRef\<rparr>)"

text \<open>
  Once the executor has called \<open>resolve()\<close>, the waiting \<open>displayPaymentSummary\<close> goes
  on. An exception in it rejects a promise nobody reads.
\<close>

definition after_resolve :: "store \<Rightarrow> store" where
  "after_resolve s =
     (if loader s = Resolved \<and> summary_waiting s
      then snd (displayPaymentSummary_resume (s\<lparr>summary_waiting := False\<rparr>)) else s)"

text \<open>
  The executor after the answer to \<open>/products\<close>. A rejection, and the \<open>Error\<close> thrown
  for an empty list, end the executor without \<open>resolve()\<close>: they reject the promise of
  the \<open>async\<close> executor, not the promise that \<open>loadProducts\<close> returned.
\<close>

definition products_settle :: "product list outcome \<Rightarrow> store \<Rightarrow> store" where
  "products_settle out s =
     (case out of
        FetchRejects err \<Rightarrow> s\<lparr>loader := Abandoned\<rparr>
      | JsonRejects err \<Rightarrow> s\<lparr>loader := Abandoned\<rparr>
      | Json ps \<Rightarrow> if ps = [] then s\<lparr>loader := Abandoned\<rparr> else after_resolve (products_loop ps s))"

definition skus_settle :: "string \<Rightarrow> product list \<Rightarrow> sku list outcome \<Rightarrow> store \<Rightarrow> store" where
  "skus_settle pid rest out s = after_resolve (products_loop rest (snd (loadSkus_settle pid out s)))"

text \<open>
  What can happen on the page: an answer from the network arrives for the one who waits
  for it, the script of the page calls \<open>loadProducts\<close> or \<open>getConfig\<close> (the latter is
  run to its end), or the user leaves a value in a quantity input that is on the page,
  which calls \<open>store.updateQuantity\<close>. An event nobody waits for changes nothing.
\<close>

datatype event =
  ProductsSettle "product list outcome"
| SkusSettle "sku list outcome"
| IntentSettle "intentData outcome"
| CallLoadProducts
| CallGetConfig "config outcome"
| Input string string

fun step :: "event \<Rightarrow> store \<Rightarrow> store" where
  "step (ProductsSettle out) s =
     (case loader s of AwaitingProducts \<Rightarrow> products_settle out s | _ \<Rightarrow> s)"
| "step (SkusSettle out) s =
     (case loader s of AwaitingSkus pid rest \<Rightarrow> skus_settle pid rest out s | _ \<Rightarrow> s)"
| "step (IntentSettle out) s =
     (if 0 < intents_in_flight s then snd (createPaymentIntent_settle out s) else s)"
| "step CallLoadProducts s = snd (loadProducts s)"
| "step (CallGetConfig out) s = snd (getConfig out s)"
| "step (Input pid v) s =
     (case inputs (document s) pid of
        None \<Rightarrow> s
      | Some old \<Rightarrow>
          snd (updateQuantity pid
                (s\<lparr>document := (document s)\<lparr>inputs := (inputs (document s))(pid \<mapsto> v)\<rparr>\<rparr>)))"

fun run :: "event list \<Rightarrow> store \<Rightarrow> store" where
  "run [] s = s"
| "run (e # es) s = run es (step e s)"

text \<open>The requests that create a payment intent.\<close>

fun is_creation :: "request \<Rightarrow> bool" where
  "is_creation (Post path b) = (path = ''/payment_intents'')"
| "is_creation (Get path) = False"

definition creations :: "store \<Rightarrow> request list" where
  "creations s = filter is_creation (requests s)"

section \<open>Notions used in the statements\<close>

text \<open>
  The first SKU of the product of a line item, read in the catalog: the product that the
  catalog holds under the item's product id, and the head of the list of its SKUs. A
  line item is priced when there is one. What the item amounts to is its quantity, as
  \<open>quantity ? quantity : 0\<close> reads it, times the price of that SKU.
\<close>

definition first_sku :: "store \<Rightarrow> lineItem \<Rightarrow> sku option" where
  "first_sku s item =
     (case map_of (products s) (li_product item) of
        None \<Rightarrow> None
      | Some p \<Rightarrow>
          (case skus p of
             None \<Rightarrow> None
           | Some ks \<Rightarrow> if ks = [] then None else Some (hd ks)))"

definition priced :: "store \<Rightarrow> lineItem \<Rightarrow> bool" where
  "priced s item = (first_sku s item \<noteq> None)"

definition line_amount :: "store \<Rightarrow> lineItem \<Rightarrow> int" where
  "line_amount s item = or_zero (li_quantity item) * price (the (first_sku s item))"

text \<open>
  The sum that \<open>reduce\<close> computes over these amounts from the left, each product and
  each partial sum being rounded to a double.
\<close>

definition rounded_sum :: "int list \<Rightarrow> int" where
  "rounded_sum amounts = foldl (\<lambda>acc a. to_double (acc + to_double a)) 0 amounts"

text \<open>
  The value of the local \<open>currency\<close> after the loop of \<open>updateTotal\<close>: the currency of
  the first SKU of the last product, and \<open>undefined\<close> for an empty catalog.
\<close>

fun last_currency :: "(string \<times> product) list \<Rightarrow> string option \<Rightarrow> string option" where
  "last_currency [] cur = cur"
| "last_currency ((pid, product) # entries) cur =
     last_currency entries
       (case skus product of Some (sku # ks) \<Rightarrow> Some (sku_currency sku) | _ \<Rightarrow> cur)"

text \<open>An input event whose value does not parse to a negative number.\<close>

fun not_negative :: "event \<Rightarrow> bool" where
  "not_negative (Input pid raw) = (case parseInt raw of JNum n \<Rightarrow> 0 \<le> n | _ \<Rightarrow> True)"
| "not_negative e = True"

text \<open>
  A currency code that \<open>Intl.NumberFormat\<close> accepts: three letters.
\<close>

definition well_formed :: "string \<Rightarrow> bool" where
  "well_formed c = (length c = 3 \<and> list_all is_alpha c)"

text \<open>
  An entry of the catalog is shown when its product has a first SKU with such a currency
  and the element \<open>price-<id>\<close> is among the price elements \<open>m\<close> of the page. A page
  is ready when the catalog is not empty, all its entries are shown and all line items
  are priced: the state in which \<open>displayPaymentSummary\<close> leaves a catalog that was
  loaded in full.
\<close>

definition shown_entry :: "(string \<rightharpoonup> string) \<Rightarrow> string \<times> product \<Rightarrow> bool" where
  "shown_entry m entry =
     (case skus (snd entry) of
        Some (sku # ks) \<Rightarrow> well_formed (sku_currency sku) \<and> m (fst entry) \<noteq> None
      | _ \<Rightarrow> False)"

definition ready :: "store \<Rightarrow> bool" where
  "ready s = (products s \<noteq> [] \<and> list_all (shown_entry (prices (document s))) (products s)
              \<and> list_all (priced s) (lineItems s))"

text \<open>
  The order is consistent with the quantities when the catalog has one entry per product
  id, every product of the catalog has a quantity, the line items exist only once the
  summary has been displayed, no product has two line items, and every line item is
  priced and counts (as \<open>quantity ? quantity : 0\<close>) for the quantity stored for its
  product.
\<close>

definition keyed :: "(string \<times> product) list \<Rightarrow> bool" where
  "keyed c = (distinct (map fst c) \<and> list_all (\<lambda>entry. product_id (snd entry) = fst entry) c)"

definition counted :: "store \<Rightarrow> lineItem \<Rightarrow> bool" where
  "counted s item =
     (quantity s (li_product item) = Some (or_zero (li_quantity item)) \<and> priced s item)"

definition consistent :: "store \<Rightarrow> bool" where
  "consistent s =
     (productsFetchPromise s \<noteq> None
      \<and> keyed (products s)
      \<and> list_all (\<lambda>entry. quantity s (fst entry) \<noteq> None) (products s)
      \<and> (lineItems s = [] \<or> (loader s = Resolved \<and> \<not> summary_waiting s))
      \<and> distinct (map li_product (lineItems s))
      \<and> list_all (counted s) (lineItems s))"

text \<open>The quantity stored for the product of a line item, 0 when there is none.\<close>

definition stored_quantity :: "store \<Rightarrow> lineItem \<Rightarrow> int" where
  "stored_quantity s item = (case quantity s (li_product item) of None \<Rightarrow> 0 | Some q \<Rightarrow> q)"

section \<open>An example page\<close>

text \<open>
  A page with one product, a shirt whose single SKU costs 1000 in \<open>usd\<close>, used to
  instantiate the theorems below. \<open>loaded\<close> is the store once the catalog has arrived
  and the configuration has been fetched.
\<close>

definition demo_page :: dom where
  "demo_page = \<lparr>inputs = Map.empty, prices = Map.empty, subtotal_text = [], total_text = [],
                 button_text = ''Pay'', demo_hidden = False\<rparr>"

definition shirt_sku :: sku where
  "shirt_sku = \<lparr>sku_id = ''sku_shirt'', price = 1000, sku_currency = ''usd''\<rparr>"

definition shirt :: product where
  "shirt = \<lparr>product_id = ''shirt'', product_name = ''Shirt'', skus = Some [shirt_sku]\<rparr>"

definition demo_config :: config where
  "demo_config = \<lparr>stripePublishableKey = ''pk_test_demo'', currency = ''usd''\<rparr>"

definition loaded :: store where
  "loaded = run [ProductsSettle (Json [shirt]), CallGetConfig (Json demo_config)] (new_Store demo_page)"

text \<open>The store \<open>loaded\<close> after the user has left \<open>v\<close> in the input of the shirt.\<close>

definition typed :: "string \<Rightarrow> store \<Rightarrow> store" where
  "typed v s = s\<lparr>document := (document s)\<lparr>inputs := (inputs (document s))(''shirt'' \<mapsto> v)\<rparr>\<rparr>"

text \<open>
  A page with a second product, a mug whose SKU carries the currency \<open>us\<close>, which is
  no currency code. \<open>half_shown\<close> is the store once this catalog has arrived and the
  configuration has been fetched: \<open>displayPaymentSummary\<close> has made the row of the
  shirt and has stopped at the mug.
\<close>

definition mug_sku :: sku where
  "mug_sku = \<lparr>sku_id = ''sku_mug'', price = 500, sku_currency = ''us''\<rparr>"

definition mug :: product where
  "mug = \<lparr>product_id = ''mug'', product_name = ''Mug'', skus = Some [mug_sku]\<rparr>"

definition half_shown :: store where
  "half_shown =
     run [ProductsSettle (Json [shirt, mug]), CallGetConfig (Json demo_config)] (new_Store demo_page)"

text \<open>The shirt page after the user has asked for \<open>9007199254740991\<close> shirts.\<close>

definition large_order :: store where
  "large_order = snd (updateQuantity ''shirt'' (typed ''9007199254740991'' loaded))"

text \<open>The shirt page after an order of one shirt has been answered with the intent \<open>pi_1\<close>.\<close>

definition ordered :: store where
  "ordered = run [Input ''shirt'' ''1'',
                  IntentSettle (Json \<lparr>data_paymentIntent = Some ''pi_1'', data_error = None\<rparr>)] loaded"

section \<open>Properties\<close>

subsection \<open>Doubles and numerals\<close>

lemma bits_bound: "n < 2 ^ k \<Longrightarrow> bits n \<le> k"
proof (induction k arbitrary: n)
  case 0
  then show ?case by (simp add: bits.simps)
next
  case (Suc k)
  show ?case
  proof (cases "n = 0")
    case True
    then show ?thesis by (simp add: bits.simps)
  next
    case False
    from Suc.prems have "n div 2 < 2 ^ k" by simp
    from Suc.IH [OF this] False show ?thesis by (subst bits.simps) simp
  qed
qed

text \<open>An integer of magnitude below \<open>2^53\<close> is a double.\<close>

lemma to_double_small [simp]: "\<bar>i\<bar> < 9007199254740992 \<Longrightarrow> to_double i = i"
proof -
  assume small: "\<bar>i\<bar> < 9007199254740992"
  then have "nat \<bar>i\<bar> < 2 ^ 53" by simp
  then have "bits (nat \<bar>i\<bar>) \<le> 53" by (rule bits_bound)
  then have "bits (nat \<bar>i\<bar>) - 53 = 0" by simp
  then show ?thesis by (simp add: to_double_def Let_def mult_sgn_abs)
qed

text \<open>\<open>Object.entries\<close> of the catalog holds the entries of the catalog.\<close>

lemma object_entries_set [simp]: "set (object_entries c) = set c"
  by (auto simp add: object_entries_def)

lemma object_entries_all [simp]: "list_all P (object_entries c) = list_all P c"
  by (simp add: list_all_iff)

lemma object_entries_empty [simp]: "object_entries c = [] \<longleftrightarrow> c = []"
  using object_entries_set [of c] by (metis set_empty)

lemma object_entries_single [simp]: "object_entries [entry] = [entry]"
  by (simp add: object_entries_def)

lemma object_entries_distinct:
  assumes "distinct (map fst c)"
  shows "distinct (map fst (object_entries c))"
proof -
  from assms have d: "distinct c" and i: "inj_on fst (set c)" by (simp_all add: distinct_map)
  have "distinct (object_entries c)"
    using d by (auto simp add: object_entries_def)
  with i show ?thesis by (simp add: distinct_map)
qed

lemmas entries_defs = object_entries_def array_index_def

lemmas parse_defs = parseInt_def trim_start.simps leading_space_def white_space_def
  radix_digit_def digit_value_def

subsection \<open>The example page, evaluated\<close>

lemmas format_defs = formatPrice_def toFixed2_def numberFormat_def format_def to_number_def
  is_decimal_def radix_digit_def digit_value_def group_digits_def currency_symbol_def
  currency_symbols_def currency_decimals_def no_decimals_def three_decimals_def
  spaced_def
  to_upper_def is_alpha_def show_int_def decimal.simps digit_char_def

lemmas demo_defs = demo_page_def shirt_sku_def shirt_def demo_config_def

lemmas store_defs = fresh_def new_Store_def loadProducts_def products_settle_def after_resolve_def
  displayPaymentSummary_resume_def rerenderTotal_def getPaymentTotal_def unit_price_def
  quantity_value_def add_element_def input_value_def getConfig_def

lemma loaded_eq:
  "loaded =
     \<lparr>lineItems = [\<lparr>li_product = ''shirt'', li_sku = ''sku_shirt'', li_quantity = JNum 0\<rparr>],
      products = [(''shirt'', shirt)],
      quantity = [''shirt'' \<mapsto> 0],
      config = Some demo_config,
      productsFetchPromise = Some 0,
      paymentIntent = NullRef,
      document = \<lparr>inputs = [''shirt'' \<mapsto> ''0''], prices = [''shirt'' \<mapsto> ''$0.00''],
                   subtotal_text = ''$0.00'', total_text = ''$0.00'', button_text = ''Pay'',
                   demo_hidden = False\<rparr>,
      requests = [Get ''/products'', Get ''/config''],
      console = [], loader = Resolved, promises = 1, intents_in_flight = 0,
      summary_waiting = False\<rparr>"
  by (simp add: loaded_def store_defs format_defs demo_defs)

subsection \<open>The total of the payment\<close>

lemma unit_price_first_sku:
  "unit_price s (li_product item) =
     (case first_sku s item of None \<Rightarrow> Inl undefined_property | Some k \<Rightarrow> Inr (price k))"
  by (simp add: unit_price_def first_sku_def split: option.splits list.splits)

lemma reduce_total_rounded:
  "list_all (priced s) items \<Longrightarrow>
   reduce_total s acc items =
     Inr (foldl (\<lambda>acc a. to_double (acc + to_double a)) acc (map (line_amount s) items))"
proof (induction items arbitrary: acc)
  case Nil
  show ?case by simp
next
  case (Cons item items)
  from Cons.prems obtain k where k: "first_sku s item = Some k"
    by (auto simp: priced_def)
  from Cons.prems have rest: "list_all (priced s) items" by simp
  show ?case
    using Cons.IH [OF rest] k by (simp add: unit_price_first_sku line_amount_def)
qed

lemma reduce_total_priced:
  "list_all (priced s) items \<Longrightarrow> \<exists>total. reduce_total s acc items = Inr total"
  by (simp add: reduce_total_rounded)

lemma reduce_total_unpriced:
  "\<not> list_all (priced s) items \<Longrightarrow> reduce_total s acc items = Inl undefined_property"
proof (induction items arbitrary: acc)
  case Nil
  then show ?case by simp
next
  case (Cons item items)
  show ?case
  proof (cases "first_sku s item")
    case None
    then show ?thesis by (simp add: unit_price_first_sku)
  next
    case (Some k)
    with Cons.prems have "\<not> list_all (priced s) items" unfolding priced_def by simp
    with Cons.IH Some show ?thesis by (simp add: unit_price_first_sku)
  qed
qed

text \<open>While the amounts stay below \<open>2^53\<close> nothing is rounded.\<close>

lemma foldl_exact:
  "\<bar>acc\<bar> + (\<Sum>a\<leftarrow>amounts. \<bar>a\<bar>) < 9007199254740992 \<Longrightarrow>
   foldl (\<lambda>acc a. to_double (acc + to_double a)) acc amounts = acc + sum_list amounts"
proof (induction amounts arbitrary: acc)
  case Nil
  show ?case by simp
next
  case (Cons a amounts)
  have pos: "0 \<le> (\<Sum>a\<leftarrow>amounts. \<bar>a\<bar>)" by (rule sum_list_nonneg) auto
  with Cons.prems have a: "\<bar>a\<bar> < 9007199254740992" by simp
  from pos Cons.prems have sum: "\<bar>acc + a\<bar> < 9007199254740992" by simp
  from Cons.prems have "\<bar>acc + a\<bar> + (\<Sum>a\<leftarrow>amounts. \<bar>a\<bar>) < 9007199254740992" by simp
  from Cons.IH [OF this] a sum show ?case by simp
qed

lemma rounded_sum_exact:
  "(\<Sum>a\<leftarrow>amounts. \<bar>a\<bar>) < 9007199254740992 \<Longrightarrow> rounded_sum amounts = sum_list amounts"
  using foldl_exact [of 0 amounts] by (simp add: rounded_sum_def)

subsection \<open>What the display methods leave alone\<close>

text \<open>
  \<open>rerenderTotal\<close>, \<open>updateButtonLabel\<close> and \<open>updateTotal\<close> write to the page only.
\<close>

lemma or_zero_JNum [simp]: "or_zero (JNum n) = n"
  by simp

declare or_zero.simps(1) [simp del]

lemma rerenderTotal_frame: "\<exists>d. snd (rerenderTotal cur s) = s\<lparr>document := d\<rparr>"
proof (cases "getPaymentTotal s")
  case (Inl e)
  then have "snd (rerenderTotal cur s) = s\<lparr>document := document s\<rparr>"
    by (simp add: rerenderTotal_def)
  then show ?thesis ..
next
  case (Inr t)
  show ?thesis
  proof (cases "formatPrice (JNum t) cur")
    case (Inl e)
    with Inr have "snd (rerenderTotal cur s) = s\<lparr>document := document s\<rparr>"
      by (simp add: rerenderTotal_def)
    then show ?thesis ..
  next
    case (Inr shown)
    with \<open>getPaymentTotal s = Inr t\<close> show ?thesis
      by (auto simp add: rerenderTotal_def)
  qed
qed

lemma updateTotal_loop_frame: "\<exists>d. snd (updateTotal_loop entries cur s) = s\<lparr>document := d\<rparr>"
proof (induction entries cur s rule: updateTotal_loop.induct)
  case (1 cur s)
  have "snd (updateTotal_loop [] cur s) = s\<lparr>document := document s\<rparr>" by simp
  then show ?case ..
next
  case (2 pid product entries cur s)
  have same: "\<exists>d. s = s\<lparr>document := d\<rparr>"
    by (rule exI [of _ "document s"]) simp
  show ?case
  proof (cases "skus product")
    case None
    with same show ?thesis by simp
  next
    case (Some ks)
    show ?thesis
    proof (cases ks)
      case Nil
      with Some same show ?thesis by simp
    next
      case (Cons sku rest)
      show ?thesis
      proof (cases "formatPrice (JNum (or_zero (js_times (price sku) (quantity_value s pid))))
                      (Some (sku_currency sku))")
        case (Inl e)
        with Some Cons same show ?thesis by simp
      next
        case (Inr shown)
        show ?thesis
        proof (cases "prices (document s) pid")
          case None
          with Some Cons Inr same show ?thesis by simp
        next
          case (Some old)
          from "2.IH" [OF \<open>skus product = Some ks\<close> Cons Inr Some]
          obtain d where
            "snd (updateTotal_loop entries (Some (sku_currency sku))
                   (s\<lparr>document := (document s)\<lparr>prices := (prices (document s))(pid \<mapsto> shown)\<rparr>\<rparr>))
             = s\<lparr>document := d\<rparr>"
            by auto
          with \<open>skus product = Some ks\<close> Cons Inr Some show ?thesis by auto
        qed
      qed
    qed
  qed
qed

lemma updateTotal_frame: "\<exists>d. snd (updateTotal s) = s\<lparr>document := d\<rparr>"
proof -
  obtain r s1 where loop: "updateTotal_loop (object_entries (products s)) None s = (r, s1)"
    by (cases "updateTotal_loop (object_entries (products s)) None s")
  from updateTotal_loop_frame [of "object_entries (products s)" None s] loop
  obtain d1 where s1: "s1 = s\<lparr>document := d1\<rparr>" by auto
  show ?thesis
  proof (cases r)
    case (Inl e)
    with loop s1 show ?thesis by (auto simp add: updateTotal_def)
  next
    case (Inr cur)
    obtain r2 s2 where rr: "rerenderTotal cur s1 = (r2, s2)"
      by (cases "rerenderTotal cur s1")
    from rerenderTotal_frame [of cur s1] rr s1
    obtain d2 where s2: "s2 = s\<lparr>document := d2\<rparr>" by auto
    show ?thesis
      using loop Inr rr s2
      by (cases r2) (auto simp add: updateTotal_def updateButtonLabel_def)
  qed
qed

subsection \<open>Orders whose quantities are all zero\<close>

text \<open>
  C7. For every list of items in which every quantity is zero, \<open>createPaymentIntent\<close>
  returns (with \<open>undefined\<close>) without calling \<open>fetch\<close>: the store it leaves is the store
  it found, so the log of requests, the stored payment intent and every other field are
  unchanged, and no answer is awaited, whatever the network would have said.
\<close>

theorem createPaymentIntent_all_zero:
  assumes "list_all (\<lambda>i. oi_quantity i = JNum 0) items"
  shows "createPaymentIntent cur items out s = (Fulfilled ReturnsUndefined, s)
         \<and> createPaymentIntent_call cur items s = (False, s)
         \<and> requests (snd (createPaymentIntent cur items out s)) = requests s
         \<and> paymentIntent (snd (createPaymentIntent cur items out s)) = paymentIntent s"
proof -
  from assms have "list_all (\<lambda>i. \<not> truthy (oi_quantity i)) items"
    by (induction items) simp_all
  then show ?thesis
    by (simp add: createPaymentIntent_def createPaymentIntent_call_def)
qed

theorem createPaymentIntent_all_zero_witness:
  "list_all (\<lambda>i. oi_quantity i = JNum 0) (getLineItems loaded)
   \<and> getLineItems loaded = [\<lparr>parent = ''sku_shirt'', oi_quantity = JNum 0\<rparr>]
   \<and> createPaymentIntent ''usd'' (getLineItems loaded)
        (Json \<lparr>data_paymentIntent = Some ''pi_1'', data_error = None\<rparr>) loaded
      = (Fulfilled ReturnsUndefined, loaded)"
proof -
  have items: "getLineItems loaded = [\<lparr>parent = ''sku_shirt'', oi_quantity = JNum 0\<rparr>]"
    by (simp add: getLineItems_def loaded_eq)
  then have h: "list_all (\<lambda>i. oi_quantity i = JNum 0) (getLineItems loaded)" by simp
  from createPaymentIntent_all_zero [OF h] items h show ?thesis by simp
qed

subsection \<open>An answer that reports an error\<close>

text \<open>
  C10. When the backend answers an intent request with a body whose \<open>error\<close> field is
  set, \<open>createPaymentIntent\<close> has already stored the \<open>paymentIntent\<close> field of the body
  in \<open>store.paymentIntent\<close> when it returns the error object: the stored reference is
  the one of the body, \<open>undefined\<close> when the body has none, whatever it was before. This
  holds for the continuation run on any store, and for the whole method.
\<close>

theorem createPaymentIntent_error_overwrites:
  assumes "data_error d = Some e" and "e \<noteq> []"
  shows "fst (createPaymentIntent_settle (Json d) s) = Fulfilled (ErrorObject e)
         \<and> paymentIntent (snd (createPaymentIntent_settle (Json d) s)) =
             (case data_paymentIntent d of None \<Rightarrow> UndefinedRef | Some p \<Rightarrow> IntentRef p)
         \<and> (\<not> list_all (\<lambda>i. \<not> truthy (oi_quantity i)) items \<longrightarrow>
              fst (createPaymentIntent cur items (Json d) s) = Fulfilled (ErrorObject e)
              \<and> paymentIntent (snd (createPaymentIntent cur items (Json d) s)) =
                  (case data_paymentIntent d of None \<Rightarrow> UndefinedRef | Some p \<Rightarrow> IntentRef p))"
  using assms
  by (simp add: createPaymentIntent_def createPaymentIntent_call_def
      createPaymentIntent_settle_def Let_def)

theorem createPaymentIntent_error_overwrites_witness:
  "paymentIntent (loaded\<lparr>paymentIntent := IntentRef ''pi_1''\<rparr>) = IntentRef ''pi_1''
   \<and> \<not> list_all (\<lambda>i. \<not> truthy (oi_quantity i)) [\<lparr>parent = ''sku_shirt'', oi_quantity = JNum 2\<rparr>]
   \<and> fst (createPaymentIntent ''usd'' [\<lparr>parent = ''sku_shirt'', oi_quantity = JNum 2\<rparr>]
           (Json \<lparr>data_paymentIntent = None, data_error = Some ''declined''\<rparr>)
           (loaded\<lparr>paymentIntent := IntentRef ''pi_1''\<rparr>)) = Fulfilled (ErrorObject ''declined'')
   \<and> paymentIntent (snd (createPaymentIntent ''usd'' [\<lparr>parent = ''sku_shirt'', oi_quantity = JNum 2\<rparr>]
           (Json \<lparr>data_paymentIntent = None, data_error = Some ''declined''\<rparr>)
           (loaded\<lparr>paymentIntent := IntentRef ''pi_1''\<rparr>))) = UndefinedRef"
  using createPaymentIntent_error_overwrites
          [of "\<lparr>data_paymentIntent = None, data_error = Some ''declined''\<rparr>" "''declined''"
              "loaded\<lparr>paymentIntent := IntentRef ''pi_1''\<rparr>"
              "[\<lparr>parent = ''sku_shirt'', oi_quantity = JNum 2\<rparr>]" "''usd''"]
  by simp

subsection \<open>The shape of updateQuantity\<close>

lemma updateQuantity_missing_input:
  "inputs (document s) pid = None \<Longrightarrow> updateQuantity pid s = (Some null_property, s)"
  by (simp add: updateQuantity_def)

text \<open>
  Whatever happens after them, the two assignments of \<open>updateQuantity\<close> stay; beyond
  them only the page changes, and at most one request is added to the log.
\<close>

lemma updateQuantity_shape:
  assumes "inputs (document s) pid = Some raw"
  shows "\<exists>d rs n.
           snd (updateQuantity pid s) =
             s\<lparr>quantity := (quantity s)(pid \<mapsto> or_zero (parseInt raw)),
               lineItems := set_quantity pid (parseInt raw) (lineItems s),
               document := d, requests := rs, intents_in_flight := n\<rparr>
           \<and> (rs = requests s \<or> (\<exists>b. rs = requests s @ [Post ''/payment_intents'' b]))"
proof -
  define s2 where
    "s2 = s\<lparr>quantity := (quantity s)(pid \<mapsto> or_zero (parseInt raw)),
            lineItems := set_quantity pid (parseInt raw) (lineItems s)\<rparr>"
  obtain r s3 where ut: "updateTotal s2 = (r, s3)" by (cases "updateTotal s2")
  from updateTotal_frame [of s2] ut obtain d where s3: "s3 = s2\<lparr>document := d\<rparr>" by auto
  have unfolded: "updateQuantity pid s =
      (case r of Some e \<Rightarrow> (Some e, s3)
       | None \<Rightarrow> (case config s3 of None \<Rightarrow> (Some null_property, s3)
           | Some c \<Rightarrow> (None, snd (createPaymentIntent_call (currency c) (getLineItems s3) s3))))"
    using assms ut by (simp add: updateQuantity_def s2_def Let_def)
  have keep: "s3 = s\<lparr>quantity := (quantity s)(pid \<mapsto> or_zero (parseInt raw)),
               lineItems := set_quantity pid (parseInt raw) (lineItems s),
               document := d, requests := requests s, intents_in_flight := intents_in_flight s\<rparr>"
    by (simp add: s3 s2_def)
  show ?thesis
  proof (cases r)
    case (Some e)
    with unfolded have "snd (updateQuantity pid s) = s3" by simp
    with keep show ?thesis by blast
  next
    case None
    show ?thesis
    proof (cases "config s3")
      case None
      with \<open>r = None\<close> unfolded have "snd (updateQuantity pid s) = s3" by simp
      with keep show ?thesis by blast
    next
      case (Some c)
      show ?thesis
      proof (cases "list_all (\<lambda>i. \<not> truthy (oi_quantity i)) (getLineItems s3)")
        case True
        with \<open>r = None\<close> Some unfolded have "snd (updateQuantity pid s) = s3"
          by (simp add: createPaymentIntent_call_def)
        with keep show ?thesis by blast
      next
        case False
        with \<open>r = None\<close> Some unfolded
        have "snd (updateQuantity pid s) =
                s3\<lparr>requests := requests s3 @
                     [Post ''/payment_intents'' (IntentBody (currency c) (getLineItems s3))],
                   intents_in_flight := Suc (intents_in_flight s3)\<rparr>"
          by (simp add: createPaymentIntent_call_def)
        then have "snd (updateQuantity pid s) =
                s\<lparr>quantity := (quantity s)(pid \<mapsto> or_zero (parseInt raw)),
                  lineItems := set_quantity pid (parseInt raw) (lineItems s),
                  document := d,
                  requests := requests s @
                     [Post ''/payment_intents'' (IntentBody (currency c) (getLineItems s3))],
                  intents_in_flight := Suc (intents_in_flight s)\<rparr>"
          by (simp add: s3 s2_def)
        then show ?thesis by blast
      qed
    qed
  qed
qed

lemma updateQuantity_quantity:
  assumes "inputs (document s) pid = Some raw"
  shows "quantity (snd (updateQuantity pid s)) = (quantity s)(pid \<mapsto> or_zero (parseInt raw))"
proof -
  from updateQuantity_shape [OF assms] obtain d rs n where
    "snd (updateQuantity pid s) =
       s\<lparr>quantity := (quantity s)(pid \<mapsto> or_zero (parseInt raw)),
         lineItems := set_quantity pid (parseInt raw) (lineItems s),
         document := d, requests := rs, intents_in_flight := n\<rparr>"
    by blast
  then show ?thesis by simp
qed

lemma updateQuantity_lineItems:
  assumes "inputs (document s) pid = Some raw"
  shows "lineItems (snd (updateQuantity pid s)) = set_quantity pid (parseInt raw) (lineItems s)"
proof -
  from updateQuantity_shape [OF assms] obtain d rs n where
    "snd (updateQuantity pid s) =
       s\<lparr>quantity := (quantity s)(pid \<mapsto> or_zero (parseInt raw)),
         lineItems := set_quantity pid (parseInt raw) (lineItems s),
         document := d, requests := rs, intents_in_flight := n\<rparr>"
    by blast
  then show ?thesis by simp
qed

lemma find_set_quantity:
  "find (\<lambda>item. li_product item = pid) (set_quantity pid q items) =
     map_option (\<lambda>item. item\<lparr>li_quantity := q\<rparr>) (find (\<lambda>item. li_product item = pid) items)"
  by (induction items) simp_all

lemma parseInt_empty: "parseInt [] = JNaN"
  by (simp add: parse_defs)

lemma parseInt_no_digit:
  assumes "strip_sign (trim_start raw) = (sign, rest)"
    and "strip_prefix rest = (R, c # cs)" and "\<not> radix_digit R c"
  shows "parseInt raw = JNaN"
  using assms by (simp add: parseInt_def)

subsection \<open>Input that is not a number\<close>

text \<open>
  C5, as the code has it. A value is non-numeric or empty when \<open>parseInt\<close> finds no
  number in it. For every product id whose input holds such a value, \<open>updateQuantity\<close>
  stores 0 in the quantity map, and assigns the parsed value itself, \<open>NaN\<close>, to the
  quantity field of the line item of the product (the first one of that product, which
  is otherwise unchanged). \<open>getPaymentTotal\<close> and the test in \<open>createPaymentIntent\<close>
  read that field as zero.
\<close>

theorem updateQuantity_non_numeric:
  assumes "inputs (document s) pid = Some raw" and "parseInt raw = JNaN"
  shows "quantity (snd (updateQuantity pid s)) pid = Some 0
         \<and> find (\<lambda>item. li_product item = pid) (lineItems (snd (updateQuantity pid s))) =
             map_option (\<lambda>item. item\<lparr>li_quantity := JNaN\<rparr>)
               (find (\<lambda>item. li_product item = pid) (lineItems s))
         \<and> or_zero JNaN = 0 \<and> \<not> truthy JNaN"
  using assms
  by (simp add: updateQuantity_quantity [OF assms(1)] updateQuantity_lineItems [OF assms(1)]
      find_set_quantity)

lemmas update_defs = updateQuantity_def updateTotal_def updateButtonLabel_def
  createPaymentIntent_call_def getLineItems_def parse_defs rerenderTotal_def
  getPaymentTotal_def unit_price_def quantity_value_def typed_def Let_def

theorem updateQuantity_non_numeric_witness:
  "inputs (document (typed [] loaded)) ''shirt'' = Some []
   \<and> parseInt [] = JNaN
   \<and> quantity (snd (updateQuantity ''shirt'' (typed [] loaded))) ''shirt'' = Some 0
   \<and> find (\<lambda>item. li_product item = ''shirt'')
        (lineItems (snd (updateQuantity ''shirt'' (typed [] loaded)))) =
       Some \<lparr>li_product = ''shirt'', li_sku = ''sku_shirt'', li_quantity = JNaN\<rparr>"
proof -
  have h1: "inputs (document (typed [] loaded)) ''shirt'' = Some []"
    by (simp add: typed_def)
  have items: "lineItems (typed [] loaded) =
      [\<lparr>li_product = ''shirt'', li_sku = ''sku_shirt'', li_quantity = JNum 0\<rparr>]"
    by (simp add: typed_def loaded_eq)
  from updateQuantity_non_numeric [OF h1 parseInt_empty] h1 parseInt_empty items
  show ?thesis by simp
qed

text \<open>
  The claim as the specification words it fails on the shirt with an empty input: the
  quantity field of the line item is not 0 afterwards.
\<close>

theorem updateQuantity_non_numeric_counterexample:
  "\<not> (\<forall>item \<in> set (lineItems (snd (updateQuantity ''shirt'' (typed [] loaded)))).
        li_product item = ''shirt'' \<longrightarrow> li_quantity item = JNum 0)"
proof -
  have "lineItems (snd (updateQuantity ''shirt'' (typed [] loaded))) =
      [\<lparr>li_product = ''shirt'', li_sku = ''sku_shirt'', li_quantity = JNaN\<rparr>]"
    by (simp add: loaded_eq update_defs format_defs demo_defs)
  then show ?thesis by simp
qed

subsection \<open>A quantity change that completes\<close>

lemma updateQuantity_unchanged:
  "products (snd (updateQuantity pid s)) = products s
   \<and> config (snd (updateQuantity pid s)) = config s
   \<and> paymentIntent (snd (updateQuantity pid s)) = paymentIntent s
   \<and> productsFetchPromise (snd (updateQuantity pid s)) = productsFetchPromise s
   \<and> loader (snd (updateQuantity pid s)) = loader s
   \<and> promises (snd (updateQuantity pid s)) = promises s
   \<and> summary_waiting (snd (updateQuantity pid s)) = summary_waiting s"
proof (cases "inputs (document s) pid")
  case None
  then show ?thesis by (simp add: updateQuantity_missing_input)
next
  case (Some raw)
  from updateQuantity_shape [OF Some] obtain d rs n where
    "snd (updateQuantity pid s) =
       s\<lparr>quantity := (quantity s)(pid \<mapsto> or_zero (parseInt raw)),
         lineItems := set_quantity pid (parseInt raw) (lineItems s),
         document := d, requests := rs, intents_in_flight := n\<rparr>"
    by blast
  then show ?thesis by simp
qed

text \<open>\<open>getPaymentTotal\<close> reads the catalog and the line items only.\<close>

lemma unit_price_cong: "products s = products t \<Longrightarrow> unit_price s pid = unit_price t pid"
  by (simp add: unit_price_def)

lemma reduce_total_cong:
  "products s = products t \<Longrightarrow> reduce_total s acc items = reduce_total t acc items"
proof (induction items arbitrary: acc)
  case Nil
  show ?case by simp
next
  case (Cons item items)
  from Cons.prems have "unit_price s (li_product item) = unit_price t (li_product item)"
    by (rule unit_price_cong)
  with Cons.IH [OF Cons.prems] show ?case by (simp split: sum.splits)
qed

lemma getPaymentTotal_cong:
  "products s = products t \<Longrightarrow> lineItems s = lineItems t \<Longrightarrow> getPaymentTotal s = getPaymentTotal t"
  by (simp add: getPaymentTotal_def reduce_total_cong [of s t])

lemma updateTotal_loop_currency:
  "updateTotal_loop entries cur s = (Inr c, s1) \<Longrightarrow> c = last_currency entries cur"
proof (induction entries cur s rule: updateTotal_loop.induct)
  case (1 cur s)
  then show ?case by simp
next
  case (2 pid product entries cur s)
  from "2.prems" obtain sku ks where sk: "skus product = Some (sku # ks)"
    by (auto split: option.splits list.splits)
  from "2.prems" sk obtain shown where
    fp: "formatPrice (JNum (or_zero (js_times (price sku) (quantity_value s pid))))
           (Some (sku_currency sku)) = Inr shown"
    by (auto split: sum.splits)
  from "2.prems" sk fp obtain old where el: "prices (document s) pid = Some old"
    by (auto split: option.splits)
  from "2.prems" sk fp el
  have "updateTotal_loop entries (Some (sku_currency sku))
          (s\<lparr>document := (document s)\<lparr>prices := (prices (document s))(pid \<mapsto> shown)\<rparr>\<rparr>)
        = (Inr c, s1)"
    by simp
  from "2.IH" [OF sk refl fp el this] sk show ?case by simp
qed

text \<open>What \<open>updateTotal\<close> has written when it returns.\<close>

lemma updateTotal_completes:
  assumes "updateTotal s = (None, s3)"
  shows "\<exists>total shown.
           getPaymentTotal s = Inr total
           \<and> formatPrice (JNum total) (last_currency (object_entries (products s)) None) = Inr shown
           \<and> subtotal_text (document s3) = shown \<and> total_text (document s3) = shown
           \<and> button_text (document s3) = ''Pay '' @ shown"
proof -
  obtain r s1 where loop: "updateTotal_loop (object_entries (products s)) None s = (r, s1)"
    by (cases "updateTotal_loop (object_entries (products s)) None s")
  from assms loop obtain cur where r: "r = Inr cur"
    by (cases r) (simp_all add: updateTotal_def)
  from updateTotal_loop_currency loop r have cur: "cur = last_currency (object_entries (products s)) None"
    by blast
  from updateTotal_loop_frame [of "object_entries (products s)" None s] loop
  obtain d1 where s1: "s1 = s\<lparr>document := d1\<rparr>" by auto
  then have same: "getPaymentTotal s1 = getPaymentTotal s"
    by (intro getPaymentTotal_cong) simp_all
  obtain r2 s2 where rr: "rerenderTotal cur s1 = (r2, s2)" by (cases "rerenderTotal cur s1")
  from assms loop r rr obtain shown where r2: "r2 = Inr shown"
    and s3: "s3 = updateButtonLabel shown s2"
    by (cases r2) (simp_all add: updateTotal_def)
  from rr r2 obtain total where total: "getPaymentTotal s1 = Inr total"
    by (cases "getPaymentTotal s1") (simp_all add: rerenderTotal_def)
  from rr r2 total have fp: "formatPrice (JNum total) cur = Inr shown"
    and s2: "s2 = s1\<lparr>document := (document s1)\<lparr>subtotal_text := shown, total_text := shown\<rparr>\<rparr>"
    by (cases "formatPrice (JNum total) cur"; simp add: rerenderTotal_def)+
  from s3 s2 have "subtotal_text (document s3) = shown \<and> total_text (document s3) = shown
      \<and> button_text (document s3) = ''Pay '' @ shown"
    by (simp add: updateButtonLabel_def)
  with total same fp cur
  have "getPaymentTotal s = Inr total
      \<and> formatPrice (JNum total) (last_currency (object_entries (products s)) None) = Inr shown
      \<and> subtotal_text (document s3) = shown \<and> total_text (document s3) = shown
      \<and> button_text (document s3) = ''Pay '' @ shown"
    by simp
  then show ?thesis by (intro exI)
qed

text \<open>How \<open>updateQuantity\<close> reaches its end without an exception.\<close>

lemma updateQuantity_completes:
  assumes "updateQuantity pid s = (None, s')"
  shows "\<exists>raw c s2 s3.
           inputs (document s) pid = Some raw
           \<and> s2 = s\<lparr>quantity := (quantity s)(pid \<mapsto> or_zero (parseInt raw)),
                     lineItems := set_quantity pid (parseInt raw) (lineItems s)\<rparr>
           \<and> updateTotal s2 = (None, s3)
           \<and> config s = Some c
           \<and> s' = snd (createPaymentIntent_call (currency c) (getLineItems s3) s3)"
proof -
  from assms obtain raw where raw: "inputs (document s) pid = Some raw"
    by (cases "inputs (document s) pid") (simp_all add: updateQuantity_def)
  define s2 where
    "s2 = s\<lparr>quantity := (quantity s)(pid \<mapsto> or_zero (parseInt raw)),
            lineItems := set_quantity pid (parseInt raw) (lineItems s)\<rparr>"
  obtain r s3 where ut: "updateTotal s2 = (r, s3)" by (cases "updateTotal s2")
  from updateTotal_frame [of s2] ut obtain d where s3: "s3 = s2\<lparr>document := d\<rparr>" by auto
  have unfolded: "updateQuantity pid s =
      (case r of Some e \<Rightarrow> (Some e, s3)
       | None \<Rightarrow> (case config s3 of None \<Rightarrow> (Some null_property, s3)
           | Some c \<Rightarrow> (None, snd (createPaymentIntent_call (currency c) (getLineItems s3) s3))))"
    using raw ut by (simp add: updateQuantity_def s2_def Let_def)
  from assms unfolded have r: "r = None" by (cases r) simp_all
  from assms unfolded r obtain c where c: "config s3 = Some c"
    by (cases "config s3") simp_all
  from assms unfolded r c
  have s': "s' = snd (createPaymentIntent_call (currency c) (getLineItems s3) s3)" by simp
  from c s3 have cs: "config s = Some c" by (simp add: s2_def)
  from ut r have ut': "updateTotal s2 = (None, s3)" by simp
  show ?thesis
    by (intro exI conjI) (rule raw, rule s2_def, rule ut', rule cs, rule s')
qed

subsection \<open>A page that is ready\<close>

lemma formatPrice_ok:
  "well_formed c \<Longrightarrow> formatPrice (JNum n) (Some c) = Inr (format (map to_upper c) (show_int n @ ''.00''))"
  by (simp add: well_formed_def formatPrice_def toFixed2_def numberFormat_def)

lemma updateTotal_loop_ok:
  "list_all (shown_entry (prices (document s))) entries \<Longrightarrow>
   \<exists>s1. updateTotal_loop entries cur s = (Inr (last_currency entries cur), s1)"
proof (induction entries arbitrary: cur s)
  case Nil
  show ?case by simp
next
  case (Cons entry entries)
  obtain pid product where entry: "entry = (pid, product)" by (cases entry)
  from Cons.prems entry obtain sku ks where sk: "skus product = Some (sku # ks)"
    and wf: "well_formed (sku_currency sku)"
    and el: "prices (document s) pid \<noteq> None"
    by (auto simp add: shown_entry_def split: option.splits list.splits)
  from el obtain old where old: "prices (document s) pid = Some old" by blast
  define shown where
    "shown = format (map to_upper (sku_currency sku))
               (show_int (or_zero (js_times (price sku) (quantity_value s pid))) @ ''.00'')"
  define s' where
    "s' = s\<lparr>document := (document s)\<lparr>prices := (prices (document s))(pid \<mapsto> shown)\<rparr>\<rparr>"
  have fp: "formatPrice (JNum (or_zero (js_times (price sku) (quantity_value s pid))))
              (Some (sku_currency sku)) = Inr shown"
    unfolding shown_def by (rule formatPrice_ok [OF wf])
  from Cons.prems have "list_all (shown_entry (prices (document s'))) entries"
    by (auto simp add: s'_def shown_entry_def list_all_iff split: option.splits list.splits)
  from Cons.IH [OF this, of "Some (sku_currency sku)"] obtain s1 where
    "updateTotal_loop entries (Some (sku_currency sku)) s' =
       (Inr (last_currency entries (Some (sku_currency sku))), s1)"
    by (elim exE) (rule that)
  with entry sk fp old have
    "updateTotal_loop (entry # entries) cur s = (Inr (last_currency (entry # entries) cur), s1)"
    by (simp add: s'_def)
  then show ?case by (intro exI)
qed

lemma last_currency_ok:
  "list_all (shown_entry m) entries \<Longrightarrow>
   entries \<noteq> [] \<or> (\<exists>c. cur = Some c \<and> well_formed c) \<Longrightarrow>
   \<exists>c. last_currency entries cur = Some c \<and> well_formed c"
proof (induction entries arbitrary: cur)
  case Nil
  then show ?case by simp
next
  case (Cons entry entries)
  obtain pid product where entry: "entry = (pid, product)" by (cases entry)
  from Cons.prems(1) entry obtain sku ks where sk: "skus product = Some (sku # ks)"
    and wf: "well_formed (sku_currency sku)"
    by (auto simp add: shown_entry_def split: option.splits list.splits)
  from Cons.prems(1) have rest: "list_all (shown_entry m) entries" by simp
  from wf have "entries \<noteq> [] \<or> (\<exists>c. Some (sku_currency sku) = Some c \<and> well_formed c)"
    by simp
  from Cons.IH [OF rest this] entry sk show ?case by simp
qed

lemma priced_cong:
  "products t = products s \<Longrightarrow> li_product i = li_product j \<Longrightarrow> priced t i = priced s j"
  by (simp add: priced_def first_sku_def unit_price_def)

lemma priced_set_quantity:
  assumes "products t = products s"
  shows "list_all (priced s) items \<Longrightarrow> list_all (priced t) (set_quantity pid q items)"
proof (induction items)
  case Nil
  show ?case by simp
next
  case (Cons item items)
  from Cons.prems have first: "priced s item" and rest: "list_all (priced s) items" by simp_all
  from first have moved: "priced t item" and changed: "priced t (item\<lparr>li_quantity := q\<rparr>)"
    using priced_cong [OF assms, of item item] priced_cong [OF assms, of "item\<lparr>li_quantity := q\<rparr>" item]
    by simp_all
  from rest have others: "list_all (priced t) items"
    using priced_cong [OF assms] by (simp add: list_all_iff)
  from Cons.IH [OF rest] moved changed others show ?case by simp
qed

lemma updateTotal_ok:
  assumes "ready s"
  shows "\<exists>s3. updateTotal s = (None, s3)"
proof -
  from assms
  have entries: "list_all (shown_entry (prices (document s))) (object_entries (products s))"
    and nonempty: "object_entries (products s) \<noteq> []"
    and items: "list_all (priced s) (lineItems s)"
    by (simp_all add: ready_def)
  from updateTotal_loop_ok [OF entries, of None] obtain s1 where
    loop: "updateTotal_loop (object_entries (products s)) None s = (Inr (last_currency (object_entries (products s)) None), s1)"
    by (elim exE) (rule that)
  from last_currency_ok [OF entries, of None] nonempty obtain c where
    cur: "last_currency (object_entries (products s)) None = Some c" and wf: "well_formed c"
    by auto
  from updateTotal_loop_frame [of "object_entries (products s)" None s] loop
  obtain d1 where s1: "s1 = s\<lparr>document := d1\<rparr>" by auto
  then have "getPaymentTotal s1 = getPaymentTotal s"
    by (intro getPaymentTotal_cong) simp_all
  with reduce_total_priced [OF items, of 0] obtain total where
    total: "getPaymentTotal s1 = Inr total"
    by (auto simp add: getPaymentTotal_def)
  from formatPrice_ok [OF wf, of total] obtain shown where
    "formatPrice (JNum total) (Some c) = Inr shown" by simp
  with loop cur total show ?thesis
    by (simp add: updateTotal_def rerenderTotal_def)
qed

lemma updateQuantity_after_total:
  assumes "inputs (document s) pid = Some raw"
    and "updateTotal (s\<lparr>quantity := (quantity s)(pid \<mapsto> or_zero (parseInt raw)),
                       lineItems := set_quantity pid (parseInt raw) (lineItems s)\<rparr>) = (None, s3)"
  shows "document (snd (updateQuantity pid s)) = document s3
         \<and> products (snd (updateQuantity pid s)) = products s3
         \<and> lineItems (snd (updateQuantity pid s)) = lineItems s3"
  using assms
  by (cases "config s3")
    (simp_all add: updateQuantity_def Let_def createPaymentIntent_call_def)

lemma updateTotal_loop_prices:
  "prices (document s) k \<noteq> None \<Longrightarrow>
   prices (document (snd (updateTotal_loop entries cur s))) k \<noteq> None"
  by (induction entries cur s rule: updateTotal_loop.induct)
    (auto split: option.splits list.splits sum.splits)

lemma updateTotal_prices:
  assumes "prices (document s) k \<noteq> None"
  shows "prices (document (snd (updateTotal s))) k \<noteq> None"
proof -
  obtain r s1 where loop: "updateTotal_loop (object_entries (products s)) None s = (r, s1)"
    by (cases "updateTotal_loop (object_entries (products s)) None s")
  from updateTotal_loop_prices [OF assms, of "object_entries (products s)" None] loop
  have kept: "prices (document s1) k \<noteq> None" by simp
  show ?thesis
  proof (cases r)
    case (Inl e)
    with loop kept show ?thesis by (simp add: updateTotal_def)
  next
    case (Inr cur)
    obtain r2 s2 where rr: "rerenderTotal cur s1 = (r2, s2)" by (cases "rerenderTotal cur s1")
    from rr kept have "prices (document s2) k \<noteq> None"
      by (auto simp add: rerenderTotal_def split: sum.splits)
    with loop Inr rr show ?thesis
      by (cases r2) (simp_all add: updateTotal_def updateButtonLabel_def)
  qed
qed

subsection \<open>The displayed total\<close>

text \<open>
  C9, as the code has it. \<open>updateTotal\<close> has no \<open>try\<close>, so the totals are written
  only when every product of the catalog can be shown. On a page that is ready, after
  every quantity change through \<open>updateQuantity\<close> the texts of the subtotal and of the
  total, and the amount in the label of the submit button (\<open>Pay\<close> followed by the
  amount), have been written anew and are \<open>formatPrice\<close> of \<open>getPaymentTotal\<close> of
  the new store, in the currency of the last product that \<open>Object.entries\<close> visits in
  the catalog. The page is ready again afterwards, so this holds after each change of a
  sequence.
\<close>

theorem updateQuantity_displays_total:
  assumes "ready s" and "inputs (document s) pid = Some raw"
  shows "\<exists>total shown.
           getPaymentTotal (snd (updateQuantity pid s)) = Inr total
           \<and> formatPrice (JNum total) (last_currency (object_entries (products (snd (updateQuantity pid s)))) None)
               = Inr shown
           \<and> subtotal_text (document (snd (updateQuantity pid s))) = shown
           \<and> total_text (document (snd (updateQuantity pid s))) = shown
           \<and> button_text (document (snd (updateQuantity pid s))) = ''Pay '' @ shown
           \<and> ready (snd (updateQuantity pid s))"
proof -
  define s2 where
    "s2 = s\<lparr>quantity := (quantity s)(pid \<mapsto> or_zero (parseInt raw)),
            lineItems := set_quantity pid (parseInt raw) (lineItems s)\<rparr>"
  define s' where "s' = snd (updateQuantity pid s)"
  have cat2: "products s2 = products s" and doc2: "document s2 = document s"
    and items2: "lineItems s2 = set_quantity pid (parseInt raw) (lineItems s)"
    by (simp_all add: s2_def)
  from assms(1) have priced2: "list_all (priced s2) (lineItems s2)"
    unfolding items2 by (intro priced_set_quantity [OF cat2]) (simp add: ready_def)
  with assms(1) have ready2: "ready s2" by (simp add: ready_def cat2 doc2)
  from updateTotal_ok [OF ready2] obtain s3 where ut: "updateTotal s2 = (None, s3)"
    by (elim exE) (rule that)
  from updateTotal_frame [of s2] ut obtain d where s3: "s3 = s2\<lparr>document := d\<rparr>" by auto
  from updateQuantity_after_total [OF assms(2) ut [unfolded s2_def]]
  have doc: "document s' = document s3" and cat: "products s' = products s2"
    and items: "lineItems s' = lineItems s2"
    by (simp_all add: s'_def s3)
  from cat items have same: "getPaymentTotal s' = getPaymentTotal s2"
    by (rule getPaymentTotal_cong)
  from updateTotal_completes [OF ut] obtain total shown where shown:
    "getPaymentTotal s2 = Inr total"
    "formatPrice (JNum total) (last_currency (object_entries (products s2)) None) = Inr shown"
    "subtotal_text (document s3) = shown" "total_text (document s3) = shown"
    "button_text (document s3) = ''Pay '' @ shown"
    by (elim exE conjE) (rule that)
  have "list_all (shown_entry (prices (document s'))) (products s')"
  proof -
    have "shown_entry (prices (document s3)) entry"
      if "shown_entry (prices (document s2)) entry" for entry
    proof -
      from that have "prices (document s2) (fst entry) \<noteq> None"
        by (auto simp add: shown_entry_def split: option.splits list.splits)
      from updateTotal_prices [OF this] ut have "prices (document s3) (fst entry) \<noteq> None"
        by simp
      with that show ?thesis
        by (auto simp add: shown_entry_def split: option.splits list.splits)
    qed
    with ready2 show ?thesis by (simp add: ready_def doc cat list_all_iff)
  qed
  moreover from priced2 have "list_all (priced s') (lineItems s')"
    unfolding items using priced_cong [OF cat] by (simp add: list_all_iff)
  moreover from ready2 have "products s' \<noteq> []" by (simp add: ready_def cat)
  ultimately have "ready s'" by (simp add: ready_def)
  with shown have "getPaymentTotal s' = Inr total
           \<and> formatPrice (JNum total) (last_currency (object_entries (products s')) None) = Inr shown
           \<and> subtotal_text (document s') = shown
           \<and> total_text (document s') = shown
           \<and> button_text (document s') = ''Pay '' @ shown
           \<and> ready s'"
    unfolding same cat doc by (intro conjI)
  then show ?thesis unfolding s'_def by (intro exI)
qed

lemma parseInt_2: "parseInt ''2'' = JNum 2"
  by (simp add: parse_defs)

lemma loaded_ready: "ready (typed v loaded)"
  by (simp add: ready_def shown_entry_def well_formed_def is_alpha_def priced_def first_sku_def unit_price_def
      typed_def loaded_eq demo_defs)

theorem updateQuantity_displays_total_witness:
  "ready (typed ''2'' loaded)
   \<and> inputs (document (typed ''2'' loaded)) ''shirt'' = Some ''2''
   \<and> getPaymentTotal (snd (updateQuantity ''shirt'' (typed ''2'' loaded))) = Inr 2000
   \<and> formatPrice (JNum 2000) (Some ''usd'') = Inr ''$2,000.00''
   \<and> total_text (document (snd (updateQuantity ''shirt'' (typed ''2'' loaded)))) = ''$2,000.00''
   \<and> subtotal_text (document (snd (updateQuantity ''shirt'' (typed ''2'' loaded)))) = ''$2,000.00''
   \<and> button_text (document (snd (updateQuantity ''shirt'' (typed ''2'' loaded)))) = ''Pay $2,000.00''"
proof -
  define s' where "s' = snd (updateQuantity ''shirt'' (typed ''2'' loaded))"
  have input: "inputs (document (typed ''2'' loaded)) ''shirt'' = Some ''2''"
    by (simp add: typed_def)
  have cat: "products s' = [(''shirt'', shirt)]"
    using updateQuantity_unchanged [of "''shirt''" "typed ''2'' loaded"]
    by (simp add: s'_def typed_def loaded_eq)
  have items: "lineItems s' =
      [\<lparr>li_product = ''shirt'', li_sku = ''sku_shirt'', li_quantity = JNum 2\<rparr>]"
    unfolding s'_def updateQuantity_lineItems [OF input] parseInt_2
    by (simp add: typed_def loaded_eq)
  have total: "getPaymentTotal s' = Inr 2000"
    by (simp add: getPaymentTotal_def items cat unit_price_def demo_defs)
  have fp: "formatPrice (JNum 2000) (Some ''usd'') = Inr ''$2,000.00''"
    by (simp add: format_defs)
  have cur: "last_currency (object_entries (products s')) None = Some ''usd''"
    by (simp add: cat demo_defs)
  from updateQuantity_displays_total [OF loaded_ready input, folded s'_def] obtain t shown where
    "getPaymentTotal s' = Inr t"
    "formatPrice (JNum t) (last_currency (object_entries (products s')) None) = Inr shown"
    "subtotal_text (document s') = shown" "total_text (document s') = shown"
    "button_text (document s') = ''Pay '' @ shown"
    by (elim exE conjE) (rule that)
  with total fp cur
  have "total_text (document s') = ''$2,000.00'' \<and> subtotal_text (document s') = ''$2,000.00''
      \<and> button_text (document s') = ''Pay $2,000.00''"
    by simp
  with loaded_ready [of "''2''"] input total fp show ?thesis unfolding s'_def by simp
qed

text \<open>
  The claim as the specification words it fails on the page with the mug. The row of the
  shirt is there, and when the user asks for two shirts \<open>updateQuantity\<close> stores the
  quantity, so that \<open>getPaymentTotal\<close> is 2000, and raises in \<open>updateTotal\<close> at the
  mug: the subtotal, the total and the label of the button stay as the markup of the page
  has them, and the total is \<open>formatPrice\<close> of 2000 in no currency.
\<close>

lemma half_shown_eq:
  "half_shown =
     \<lparr>lineItems = [\<lparr>li_product = ''shirt'', li_sku = ''sku_shirt'', li_quantity = JNum 0\<rparr>],
      products = [(''shirt'', shirt), (''mug'', mug)],
      quantity = [''shirt'' \<mapsto> 0, ''mug'' \<mapsto> 0],
      config = Some demo_config,
      productsFetchPromise = Some 0,
      paymentIntent = NullRef,
      document = \<lparr>inputs = [''shirt'' \<mapsto> ''0''], prices = [''shirt'' \<mapsto> ''$0.00''],
                   subtotal_text = [], total_text = [], button_text = ''Pay'',
                   demo_hidden = False\<rparr>,
      requests = [Get ''/products'', Get ''/config''],
      console = [], loader = Resolved, promises = 1, intents_in_flight = 0,
      summary_waiting = False\<rparr>"
  by (simp add: half_shown_def store_defs format_defs demo_defs mug_def mug_sku_def entries_defs)

lemma half_shown_edited:
  "step (Input ''shirt'' ''2'') half_shown =
     \<lparr>lineItems = [\<lparr>li_product = ''shirt'', li_sku = ''sku_shirt'', li_quantity = JNum 2\<rparr>],
      products = [(''shirt'', shirt), (''mug'', mug)],
      quantity = [''mug'' \<mapsto> 0, ''shirt'' \<mapsto> 2],
      config = Some demo_config,
      productsFetchPromise = Some 0,
      paymentIntent = NullRef,
      document = \<lparr>inputs = [''shirt'' \<mapsto> ''2''], prices = [''shirt'' \<mapsto> ''$2,000.00''],
                   subtotal_text = [], total_text = [], button_text = ''Pay'',
                   demo_hidden = False\<rparr>,
      requests = [Get ''/products'', Get ''/config''],
      console = [], loader = Resolved, promises = 1, intents_in_flight = 0,
      summary_waiting = False\<rparr>"
  by (simp add: half_shown_eq update_defs format_defs demo_defs mug_def mug_sku_def entries_defs)

lemma commas_nonempty: "ds \<noteq> [] \<Longrightarrow> commas ds \<noteq> []"
  by (cases ds rule: commas.cases) simp_all

lemma decimal_nonempty: "decimal n \<noteq> []"
  by (subst decimal.simps) simp

lemma formatPrice_nonempty: "formatPrice amount cur = Inr shown \<Longrightarrow> shown \<noteq> []"
  by (auto simp add: formatPrice_def format_def group_digits_def commas_nonempty decimal_nonempty
      split: sum.splits jsval.splits)

theorem updateQuantity_displays_total_counterexample:
  "inputs (document half_shown) ''shirt'' = Some ''0''
   \<and> getPaymentTotal (step (Input ''shirt'' ''2'') half_shown) = Inr 2000
   \<and> subtotal_text (document (step (Input ''shirt'' ''2'') half_shown)) = []
   \<and> total_text (document (step (Input ''shirt'' ''2'') half_shown)) = []
   \<and> button_text (document (step (Input ''shirt'' ''2'') half_shown)) = ''Pay''
   \<and> \<not> (\<exists>cur. formatPrice (JNum 2000) cur =
               Inr (total_text (document (step (Input ''shirt'' ''2'') half_shown))))"
proof -
  have "getPaymentTotal (step (Input ''shirt'' ''2'') half_shown) = Inr 2000"
    unfolding half_shown_edited by (simp add: getPaymentTotal_def unit_price_def demo_defs)
  moreover have "\<not> (\<exists>cur. formatPrice (JNum 2000) cur = Inr [])"
    using formatPrice_nonempty by blast
  ultimately show ?thesis
    unfolding half_shown_edited by (simp add: half_shown_eq)
qed

subsection \<open>One product at 1000\<close>

lemma parseInt_3: "parseInt ''3'' = JNum 3"
  by (simp add: parse_defs)

lemma formatPrice_3000: "formatPrice (JNum 3000) (Some ''usd'') = Inr ''$3,000.00''"
  by (simp add: format_defs)

text \<open>
  C2, as the code has it. In a catalog with exactly one product whose single SKU costs
  1000 in \<open>usd\<close>, with its line item and its row on the page, setting the quantity to 3
  makes \<open>getPaymentTotal\<close> return 3000. \<open>formatPrice\<close> does not divide by 100: it shows
  the amount it is given with two decimals, so 3000 in \<open>usd\<close> is shown as \<open>$3,000.00\<close>,
  and this is the total on the page.
\<close>

theorem one_product_total:
  assumes "products s = [(pid, p)]" and "skus p = Some [k]"
    and "price k = 1000" and "sku_currency k = ''usd''"
    and "lineItems s = [item]" and "li_product item = pid"
    and "inputs (document s) pid = Some ''3''" and "prices (document s) pid = Some old"
  shows "getPaymentTotal (snd (updateQuantity pid s)) = Inr 3000
         \<and> formatPrice (JNum 3000) (Some ''usd'') = Inr ''$3,000.00''
         \<and> total_text (document (snd (updateQuantity pid s))) = ''$3,000.00''
         \<and> subtotal_text (document (snd (updateQuantity pid s))) = ''$3,000.00''"
proof -
  have cat: "products (snd (updateQuantity pid s)) = [(pid, p)]"
    using updateQuantity_unchanged [of pid s] assms(1) by simp
  have items: "lineItems (snd (updateQuantity pid s)) = [item\<lparr>li_quantity := JNum 3\<rparr>]"
    unfolding updateQuantity_lineItems [OF assms(7)] parseInt_3 using assms(5,6) by simp
  have total: "getPaymentTotal (snd (updateQuantity pid s)) = Inr 3000"
    using assms(2,3,6) by (simp add: getPaymentTotal_def items cat unit_price_def)
  have shown: "total_text (document (snd (updateQuantity pid s))) = ''$3,000.00''
      \<and> subtotal_text (document (snd (updateQuantity pid s))) = ''$3,000.00''"
    using assms
    by (cases "config s")
      (simp_all add: updateQuantity_def updateTotal_def updateButtonLabel_def
        createPaymentIntent_call_def getLineItems_def rerenderTotal_def getPaymentTotal_def
        unit_price_def quantity_value_def Let_def parseInt_3 formatPrice_3000)
  from total formatPrice_3000 shown show ?thesis by simp
qed

theorem one_product_total_witness:
  "products (typed ''3'' loaded) = [(''shirt'', shirt)] \<and> skus shirt = Some [shirt_sku]
   \<and> price shirt_sku = 1000 \<and> sku_currency shirt_sku = ''usd''
   \<and> lineItems (typed ''3'' loaded) =
       [\<lparr>li_product = ''shirt'', li_sku = ''sku_shirt'', li_quantity = JNum 0\<rparr>]
   \<and> inputs (document (typed ''3'' loaded)) ''shirt'' = Some ''3''
   \<and> prices (document (typed ''3'' loaded)) ''shirt'' = Some ''$0.00''
   \<and> getPaymentTotal (snd (updateQuantity ''shirt'' (typed ''3'' loaded))) = Inr 3000
   \<and> total_text (document (snd (updateQuantity ''shirt'' (typed ''3'' loaded)))) = ''$3,000.00''"
proof -
  have h: "products (typed ''3'' loaded) = [(''shirt'', shirt)]" "skus shirt = Some [shirt_sku]"
    "price shirt_sku = 1000" "sku_currency shirt_sku = ''usd''"
    "lineItems (typed ''3'' loaded) =
       [\<lparr>li_product = ''shirt'', li_sku = ''sku_shirt'', li_quantity = JNum 0\<rparr>]"
    "li_product \<lparr>li_product = ''shirt'', li_sku = ''sku_shirt'', li_quantity = JNum 0\<rparr> = ''shirt''"
    "inputs (document (typed ''3'' loaded)) ''shirt'' = Some ''3''"
    "prices (document (typed ''3'' loaded)) ''shirt'' = Some ''$0.00''"
    by (simp_all add: typed_def loaded_eq demo_defs)
  from one_product_total [OF h] h show ?thesis by simp
qed

text \<open>The display the specification expects, \<open>$30.00\<close>, is not what the shirt page shows.\<close>

theorem one_product_total_counterexample:
  "getPaymentTotal (snd (updateQuantity ''shirt'' (typed ''3'' loaded))) = Inr 3000
   \<and> formatPrice (JNum 3000) (Some ''usd'') \<noteq> Inr ''$30.00''
   \<and> total_text (document (snd (updateQuantity ''shirt'' (typed ''3'' loaded)))) \<noteq> ''$30.00''"
  by (simp add: loaded_eq update_defs format_defs demo_defs)

subsection \<open>Requests for a payment intent\<close>

lemma all_zero_getLineItems:
  "list_all (\<lambda>i. \<not> truthy (oi_quantity i)) (getLineItems s) =
   list_all (\<lambda>item. \<not> truthy (li_quantity item)) (lineItems s)"
  by (simp add: getLineItems_def list_all_iff)

lemma posts_when_complete:
  assumes "updateQuantity pid s = (None, s')"
  shows "\<exists>c. config s = Some c
           \<and> paymentIntent s' = paymentIntent s
           \<and> requests s' = requests s @
               (if list_all (\<lambda>item. \<not> truthy (li_quantity item)) (lineItems s') then []
                else [Post ''/payment_intents'' (IntentBody (currency c) (getLineItems s'))])"
proof -
  from updateQuantity_completes [OF assms] obtain raw c s2 s3 where
    raw: "inputs (document s) pid = Some raw"
    and s2: "s2 = s\<lparr>quantity := (quantity s)(pid \<mapsto> or_zero (parseInt raw)),
                lineItems := set_quantity pid (parseInt raw) (lineItems s)\<rparr>"
    and ut: "updateTotal s2 = (None, s3)"
    and cs: "config s = Some c"
    and s': "s' = snd (createPaymentIntent_call (currency c) (getLineItems s3) s3)"
    by (elim exE conjE) (rule that)
  from updateTotal_frame [of s2] ut obtain d where s3: "s3 = s2\<lparr>document := d\<rparr>" by auto
  have items: "lineItems s' = lineItems s3" and intent: "paymentIntent s' = paymentIntent s"
    unfolding s' s3 s2 by (simp_all add: createPaymentIntent_call_def)
  from items have order: "getLineItems s' = getLineItems s3" by (simp add: getLineItems_def)
  have reqs: "requests s3 = requests s" unfolding s3 s2 by simp
  have "requests s' = requests s @
               (if list_all (\<lambda>item. \<not> truthy (li_quantity item)) (lineItems s') then []
                else [Post ''/payment_intents'' (IntentBody (currency c) (getLineItems s'))])"
    unfolding order items all_zero_getLineItems [symmetric] reqs [symmetric]
    by (simp add: s' createPaymentIntent_call_def)
  with cs intent show ?thesis by (intro exI conjI)
qed

lemma ready_assigned:
  assumes "ready s"
  shows "ready (s\<lparr>quantity := q, lineItems := set_quantity pid v (lineItems s)\<rparr>)"
proof -
  define s2 where "s2 = s\<lparr>quantity := q, lineItems := set_quantity pid v (lineItems s)\<rparr>"
  have cat2: "products s2 = products s" and doc2: "document s2 = document s"
    and items2: "lineItems s2 = set_quantity pid v (lineItems s)"
    by (simp_all add: s2_def)
  from assms have "list_all (priced s2) (lineItems s2)"
    unfolding items2 by (intro priced_set_quantity [OF cat2]) (simp add: ready_def)
  with assms have "ready s2" by (simp add: ready_def cat2 doc2)
  then show ?thesis by (simp add: s2_def)
qed

lemma ready_completes:
  assumes "ready s" and "inputs (document s) pid = Some raw" and "config s = Some c"
  shows "fst (updateQuantity pid s) = None"
proof -
  define s2 where
    "s2 = s\<lparr>quantity := (quantity s)(pid \<mapsto> or_zero (parseInt raw)),
            lineItems := set_quantity pid (parseInt raw) (lineItems s)\<rparr>"
  from ready_assigned [OF assms(1)] have "ready s2" by (simp add: s2_def)
  from updateTotal_ok [OF this] obtain s3 where ut: "updateTotal s2 = (None, s3)"
    by (elim exE) (rule that)
  from updateTotal_frame [of s2] ut obtain d where "s3 = s2\<lparr>document := d\<rparr>" by auto
  with assms(3) have "config s3 = Some c" by (simp add: s2_def)
  with assms(2) ut show ?thesis by (simp add: updateQuantity_def Let_def s2_def)
qed

text \<open>
  C3, as the code has it. \<open>updateQuantity\<close> never looks at the stored payment intent.
  On a page that is ready, with the configuration fetched, every quantity change
  completes, and when it leaves a line item with a quantity other than zero it posts one
  more creation request to \<open>/payment_intents\<close>, with the currency of the configuration
  and the line items as they now are, whether or not an intent is stored; a change that
  leaves every quantity zero or \<open>NaN\<close> posts nothing: a quantity passes the test of
  \<open>createPaymentIntent\<close> when it is a number other than zero. The change itself leaves
  the stored intent as it is. When the answer to a creation request arrives with a body
  that can be read, \<open>createPaymentIntent\<close> stores the field \<open>paymentIntent\<close> of the
  body in its place, \<open>undefined\<close> when the body has none; when the request or the
  reading of the body rejects, the stored intent stays as it is.
\<close>

theorem updateQuantity_posts_creation:
  assumes "ready s" and "inputs (document s) pid = Some raw" and "config s = Some c"
  shows "fst (updateQuantity pid s) = None
         \<and> paymentIntent (snd (updateQuantity pid s)) = paymentIntent s
         \<and> requests (snd (updateQuantity pid s)) = requests s @
             (if list_all (\<lambda>item. \<not> truthy (li_quantity item))
                   (lineItems (snd (updateQuantity pid s))) then []
              else [Post ''/payment_intents''
                      (IntentBody (currency c) (getLineItems (snd (updateQuantity pid s))))])
         \<and> truthy q = (\<exists>n. q = JNum n \<and> n \<noteq> 0)
         \<and> paymentIntent (snd (createPaymentIntent_settle (Json d) t)) =
             (case data_paymentIntent d of None \<Rightarrow> UndefinedRef | Some p \<Rightarrow> IntentRef p)
         \<and> paymentIntent (snd (createPaymentIntent_settle (FetchRejects err) t)) = paymentIntent t
         \<and> paymentIntent (snd (createPaymentIntent_settle (JsonRejects err) t)) = paymentIntent t"
proof -
  have number: "truthy q = (\<exists>n. q = JNum n \<and> n \<noteq> 0)"
    by (cases q) simp_all
  have answer: "paymentIntent (snd (createPaymentIntent_settle (Json d) t)) =
      (case data_paymentIntent d of None \<Rightarrow> UndefinedRef | Some p \<Rightarrow> IntentRef p)"
    by (simp add: createPaymentIntent_settle_def Let_def split: option.splits)
  have rejected: "paymentIntent (snd (createPaymentIntent_settle (FetchRejects err) t)) = paymentIntent t"
    "paymentIntent (snd (createPaymentIntent_settle (JsonRejects err) t)) = paymentIntent t"
    by (simp_all add: createPaymentIntent_settle_def Let_def)
  define s' where "s' = snd (updateQuantity pid s)"
  from ready_completes [OF assms] have none: "fst (updateQuantity pid s) = None" .
  then have "updateQuantity pid s = (None, s')" by (simp add: s'_def prod_eq_iff)
  from posts_when_complete [OF this] obtain c' where
    "config s = Some c'" "paymentIntent s' = paymentIntent s"
    "requests s' = requests s @
               (if list_all (\<lambda>item. \<not> truthy (li_quantity item)) (lineItems s') then []
                else [Post ''/payment_intents'' (IntentBody (currency c') (getLineItems s'))])"
    by (elim exE conjE) (rule that)
  with assms(3) none have "fst (updateQuantity pid s) = None
         \<and> paymentIntent (snd (updateQuantity pid s)) = paymentIntent s
         \<and> requests (snd (updateQuantity pid s)) = requests s @
             (if list_all (\<lambda>item. \<not> truthy (li_quantity item))
                   (lineItems (snd (updateQuantity pid s))) then []
              else [Post ''/payment_intents''
                      (IntentBody (currency c) (getLineItems (snd (updateQuantity pid s))))])"
    unfolding s'_def by simp
  with number answer rejected show ?thesis by (intro conjI) simp_all
qed

lemma parseInt_1: "parseInt ''1'' = JNum 1"
  by (simp add: parse_defs)

lemma ordered_eq:
  "ordered =
     \<lparr>lineItems = [\<lparr>li_product = ''shirt'', li_sku = ''sku_shirt'', li_quantity = JNum 1\<rparr>],
      products = [(''shirt'', shirt)],
      quantity = [''shirt'' \<mapsto> 1],
      config = Some demo_config,
      productsFetchPromise = Some 0,
      paymentIntent = IntentRef ''pi_1'',
      document = \<lparr>inputs = [''shirt'' \<mapsto> ''1''], prices = [''shirt'' \<mapsto> ''$1,000.00''],
                   subtotal_text = ''$1,000.00'', total_text = ''$1,000.00'',
                   button_text = ''Pay $1,000.00'', demo_hidden = False\<rparr>,
      requests = [Get ''/products'', Get ''/config'',
                  Post ''/payment_intents''
                    (IntentBody ''usd'' [\<lparr>parent = ''sku_shirt'', oi_quantity = JNum 1\<rparr>])],
      console = [], loader = Resolved, promises = 1, intents_in_flight = 0,
      summary_waiting = False\<rparr>"
  by (simp add: ordered_def loaded_eq updateQuantity_def updateTotal_def updateButtonLabel_def
      createPaymentIntent_call_def createPaymentIntent_settle_def getLineItems_def
      rerenderTotal_def getPaymentTotal_def unit_price_def quantity_value_def Let_def
      parseInt_1 format_defs demo_defs)

lemma ordered_again:
  "updateQuantity ''shirt'' (typed ''2'' ordered) =
     (None,
      ordered\<lparr>lineItems := [\<lparr>li_product = ''shirt'', li_sku = ''sku_shirt'', li_quantity = JNum 2\<rparr>],
        quantity := [''shirt'' \<mapsto> 2],
        document := \<lparr>inputs = [''shirt'' \<mapsto> ''2''], prices = [''shirt'' \<mapsto> ''$2,000.00''],
                   subtotal_text = ''$2,000.00'', total_text = ''$2,000.00'',
                   button_text = ''Pay $2,000.00'', demo_hidden = False\<rparr>,
        requests := requests ordered @
          [Post ''/payment_intents''
             (IntentBody ''usd'' [\<lparr>parent = ''sku_shirt'', oi_quantity = JNum 2\<rparr>])],
        intents_in_flight := 1\<rparr>)"
  by (simp add: ordered_eq updateQuantity_def updateTotal_def updateButtonLabel_def
      createPaymentIntent_call_def getLineItems_def typed_def
      rerenderTotal_def getPaymentTotal_def unit_price_def quantity_value_def Let_def
      parseInt_2 format_defs demo_defs)

lemma ordered_ready: "ready (typed v ordered)"
  by (simp add: ready_def shown_entry_def well_formed_def is_alpha_def priced_def first_sku_def unit_price_def
      typed_def ordered_eq demo_defs)

theorem updateQuantity_posts_creation_witness:
  "ready (typed ''2'' ordered)
   \<and> inputs (document (typed ''2'' ordered)) ''shirt'' = Some ''2''
   \<and> config (typed ''2'' ordered) = Some demo_config
   \<and> paymentIntent (typed ''2'' ordered) = IntentRef ''pi_1''
   \<and> fst (updateQuantity ''shirt'' (typed ''2'' ordered)) = None
   \<and> paymentIntent (snd (updateQuantity ''shirt'' (typed ''2'' ordered))) = IntentRef ''pi_1''
   \<and> requests (snd (updateQuantity ''shirt'' (typed ''2'' ordered))) =
       requests (typed ''2'' ordered) @
         [Post ''/payment_intents''
            (IntentBody ''usd'' [\<lparr>parent = ''sku_shirt'', oi_quantity = JNum 2\<rparr>])]
   \<and> paymentIntent (snd (createPaymentIntent_settle
         (Json \<lparr>data_paymentIntent = Some ''pi_2'', data_error = None\<rparr>)
         (snd (updateQuantity ''shirt'' (typed ''2'' ordered))))) = IntentRef ''pi_2''
   \<and> paymentIntent (snd (createPaymentIntent_settle (FetchRejects (Error ''offline''))
         (snd (updateQuantity ''shirt'' (typed ''2'' ordered))))) = IntentRef ''pi_1''"
proof -
  have input: "inputs (document (typed ''2'' ordered)) ''shirt'' = Some ''2''"
    and cfg: "config (typed ''2'' ordered) = Some demo_config"
    and old: "paymentIntent (typed ''2'' ordered) = IntentRef ''pi_1''"
    by (simp_all add: typed_def ordered_eq)
  have items: "lineItems (snd (updateQuantity ''shirt'' (typed ''2'' ordered))) =
      [\<lparr>li_product = ''shirt'', li_sku = ''sku_shirt'', li_quantity = JNum 2\<rparr>]"
    unfolding updateQuantity_lineItems [OF input] parseInt_2
    by (simp add: typed_def ordered_eq)
  from updateQuantity_posts_creation [OF ordered_ready input cfg,
      of "JNum 2" "\<lparr>data_paymentIntent = Some ''pi_2'', data_error = None\<rparr>"
         "snd (updateQuantity ''shirt'' (typed ''2'' ordered))" "Error ''offline''"]
    items old
  have "fst (updateQuantity ''shirt'' (typed ''2'' ordered)) = None
   \<and> paymentIntent (snd (updateQuantity ''shirt'' (typed ''2'' ordered))) = IntentRef ''pi_1''
   \<and> requests (snd (updateQuantity ''shirt'' (typed ''2'' ordered))) =
       requests (typed ''2'' ordered) @
         [Post ''/payment_intents''
            (IntentBody ''usd'' [\<lparr>parent = ''sku_shirt'', oi_quantity = JNum 2\<rparr>])]
   \<and> paymentIntent (snd (createPaymentIntent_settle
         (Json \<lparr>data_paymentIntent = Some ''pi_2'', data_error = None\<rparr>)
         (snd (updateQuantity ''shirt'' (typed ''2'' ordered))))) = IntentRef ''pi_2''
   \<and> paymentIntent (snd (createPaymentIntent_settle (FetchRejects (Error ''offline''))
         (snd (updateQuantity ''shirt'' (typed ''2'' ordered))))) = IntentRef ''pi_1''"
    by (simp add: getLineItems_def demo_config_def)
  with ordered_ready [of "''2''"] input cfg old show ?thesis by (intro conjI) simp_all
qed

text \<open>
  The claim of the specification fails on the shirt page: with the intent \<open>pi_1\<close> stored,
  the next quantity change posts a second creation request.
\<close>

theorem updateQuantity_posts_creation_counterexample:
  "\<not> (\<forall>es e p. paymentIntent (run es (new_Store demo_page)) = IntentRef p \<longrightarrow>
         creations (step e (run es (new_Store demo_page))) = creations (run es (new_Store demo_page)))"
proof
  assume claim: "\<forall>es e p. paymentIntent (run es (new_Store demo_page)) = IntentRef p \<longrightarrow>
         creations (step e (run es (new_Store demo_page))) = creations (run es (new_Store demo_page))"
  define es where
    "es = [ProductsSettle (Json [shirt]), CallGetConfig (Json demo_config), Input ''shirt'' ''1'',
           IntentSettle (Json \<lparr>data_paymentIntent = Some ''pi_1'', data_error = None\<rparr>)]"
  have reach: "run es (new_Store demo_page) = ordered"
    by (simp add: es_def ordered_def loaded_def)
  have stored: "paymentIntent ordered = IntentRef ''pi_1''"
    by (simp add: ordered_eq)
  have before: "length (creations ordered) = 1"
    by (simp add: creations_def ordered_eq)
  have next_step: "step (Input ''shirt'' ''2'') ordered = snd (updateQuantity ''shirt'' (typed ''2'' ordered))"
    by (simp add: typed_def ordered_eq)
  have after: "length (creations (step (Input ''shirt'' ''2'') ordered)) = 2"
    unfolding next_step ordered_again by (simp add: creations_def ordered_eq)
  from claim reach stored
  have "creations (step (Input ''shirt'' ''2'') ordered) = creations ordered"
    by metis
  with before after show False by simp
qed

subsection \<open>Network calls that reject\<close>

text \<open>
  C4, as the code has it. When the call of \<open>fetch\<close>, or the reading of the body,
  rejects with an exception \<open>e\<close>: \<open>getConfig\<close>, \<open>loadSkus\<close>, \<open>createPaymentIntent\<close> (when
  it makes its request) and \<open>updatePaymentIntentWithShippingCost\<close> return the object
  \<open>{error: e.message}\<close>; \<open>createCharge\<close>, once it has made its request, writes to the
  console and returns \<open>undefined\<close>. In each case the promise of the method is fulfilled,
  so no exception reaches the caller.
\<close>

theorem rejection_results:
  shows "fst (getConfig (FetchRejects e) s) = Fulfilled (ErrorObject (message e))
       \<and> fst (getConfig (JsonRejects e) s) = Fulfilled (ErrorObject (message e))
       \<and> fst (loadSkus pid (FetchRejects e) s) = Fulfilled (ErrorObject (message e))
       \<and> fst (loadSkus pid (JsonRejects e) s) = Fulfilled (ErrorObject (message e))
       \<and> (\<not> list_all (\<lambda>i. \<not> truthy (oi_quantity i)) items \<longrightarrow>
            fst (createPaymentIntent cur items (FetchRejects e) s) = Fulfilled (ErrorObject (message e))
            \<and> fst (createPaymentIntent cur items (JsonRejects e) s) = Fulfilled (ErrorObject (message e)))
       \<and> fst (updatePaymentIntentWithShippingCost intent items option (FetchRejects e) s)
            = Fulfilled (ErrorObject (message e))
       \<and> fst (updatePaymentIntentWithShippingCost intent items option (JsonRejects e) s)
            = Fulfilled (ErrorObject (message e))
       \<and> (getPaymentTotal s = Inr amount \<and> config s = Some c \<longrightarrow>
            createCharge token metadata (FetchRejects e) s =
              (Fulfilled ReturnsUndefined,
               s\<lparr>requests := requests s @ [Post ''/charges'' (ChargeBody token amount (currency c) metadata)],
                 console := console s @ [''failed to create a charge'']\<rparr>)
            \<and> createCharge token metadata (JsonRejects e) s =
              (Fulfilled ReturnsUndefined,
               s\<lparr>requests := requests s @ [Post ''/charges'' (ChargeBody token amount (currency c) metadata)],
                 console := console s @ [''failed to create a charge'']\<rparr>))"
  by (simp add: getConfig_def loadSkus_def loadSkus_settle_def createPaymentIntent_def
      createPaymentIntent_call_def createPaymentIntent_settle_def
      updatePaymentIntentWithShippingCost_def createCharge_def Let_def)

lemma ordered_total: "getPaymentTotal ordered = Inr 1000"
  by (simp add: getPaymentTotal_def unit_price_def ordered_eq demo_defs)

theorem rejection_results_witness:
  "\<not> list_all (\<lambda>i. \<not> truthy (oi_quantity i)) (getLineItems ordered)
   \<and> fst (createPaymentIntent ''usd'' (getLineItems ordered) (FetchRejects (TypeError ''Failed to fetch'')) ordered)
       = Fulfilled (ErrorObject ''Failed to fetch'')
   \<and> getPaymentTotal ordered = Inr 1000 \<and> config ordered = Some demo_config
   \<and> fst (createCharge ''tok_1'' ''order 1'' (FetchRejects (TypeError ''Failed to fetch'')) ordered)
       = Fulfilled ReturnsUndefined
   \<and> fst (getConfig (FetchRejects (TypeError ''Failed to fetch'')) ordered)
       = Fulfilled (ErrorObject ''Failed to fetch'')"
proof -
  have h1: "\<not> list_all (\<lambda>i. \<not> truthy (oi_quantity i)) (getLineItems ordered)"
    by (simp add: getLineItems_def ordered_eq)
  have h2: "getPaymentTotal ordered = Inr 1000 \<and> config ordered = Some demo_config"
    by (simp add: ordered_total) (simp add: ordered_eq)
  from rejection_results [of "TypeError ''Failed to fetch''" ordered "''shirt''" "getLineItems ordered"
      "''usd''" "''pi_1''" "''free''" 1000 demo_config "''tok_1''" "''order 1''"] h1 h2
  show ?thesis by simp
qed

text \<open>
  The claim of the specification fails for \<open>createCharge\<close>: on the shirt page with one
  shirt ordered, a rejected request to \<open>/charges\<close> makes it return \<open>undefined\<close>, which is
  no error object.
\<close>

theorem rejection_results_counterexample:
  "requests (snd (createCharge ''tok_1'' ''order 1'' (FetchRejects (TypeError ''Failed to fetch'')) ordered))
     = requests ordered @ [Post ''/charges'' (ChargeBody ''tok_1'' 1000 ''usd'' ''order 1'')]
   \<and> fst (createCharge ''tok_1'' ''order 1'' (FetchRejects (TypeError ''Failed to fetch'')) ordered)
       = Fulfilled ReturnsUndefined
   \<and> (\<forall>m. fst (createCharge ''tok_1'' ''order 1'' (FetchRejects (TypeError ''Failed to fetch'')) ordered)
         \<noteq> Fulfilled (ErrorObject m))"
proof -
  have cfg: "config ordered = Some demo_config" by (simp add: ordered_eq)
  show ?thesis
    by (simp add: createCharge_def ordered_total cfg demo_config_def)
qed

subsection \<open>What each part of the page's life can change\<close>

lemma summary_loop_frame:
  "\<exists>d l. snd (summary_loop entries cur s) = s\<lparr>document := d, lineItems := l\<rparr>"
proof (induction entries cur s rule: summary_loop.induct)
  case (1 cur s)
  have "snd (summary_loop [] cur s) = s\<lparr>document := document s, lineItems := lineItems s\<rparr>"
    by simp
  then show ?case by (intro exI)
next
  case (2 pid product entries cur s)
  have same: "\<exists>d l. s = s\<lparr>document := d, lineItems := l\<rparr>"
    by (rule exI [of _ "document s"], rule exI [of _ "lineItems s"]) simp
  show ?case
  proof (cases "skus product")
    case None
    with same show ?thesis by simp
  next
    case (Some ks)
    show ?thesis
    proof (cases ks)
      case Nil
      with Some same show ?thesis by simp
    next
      case (Cons sku rest)
      show ?thesis
      proof (cases "formatPrice (JNum (price sku)) (Some (sku_currency sku))")
        case (Inl e)
        with Some Cons same show ?thesis by simp
      next
        case skuPrice: (Inr shown)
        show ?thesis
        proof (cases "formatPrice (js_times (price sku) (quantity_value s pid)) (Some (sku_currency sku))")
          case (Inl e)
          with Some Cons skuPrice same show ?thesis by simp
        next
          case (Inr lineItemPrice)
          from "2.IH" [OF Some Cons skuPrice Inr]
          obtain d l where
            "snd (summary_loop entries (Some (sku_currency sku))
                   (s\<lparr>document := (document s)
                        \<lparr>inputs := add_element (inputs (document s)) (product_id product)
                                     (input_value (quantity_value s (product_id product))),
                         prices := add_element (prices (document s)) (product_id product)
                                     lineItemPrice\<rparr>,
                      lineItems := lineItems s @
                        [\<lparr>li_product = product_id product, li_sku = sku_id sku,
                          li_quantity = quantity_value s pid\<rparr>]\<rparr>))
             = s\<lparr>document := d, lineItems := l\<rparr>"
            by auto
          with Some Cons skuPrice Inr show ?thesis by auto
        qed
      qed
    qed
  qed
qed

lemma displayPaymentSummary_resume_frame:
  "\<exists>d l. snd (displayPaymentSummary_resume s) = s\<lparr>document := d, lineItems := l\<rparr>"
proof -
  obtain r s1 where loop: "summary_loop (object_entries (products s)) None s = (r, s1)"
    by (cases "summary_loop (object_entries (products s)) None s")
  from summary_loop_frame [of "object_entries (products s)" None s] loop
  obtain d1 l1 where s1: "s1 = s\<lparr>document := d1, lineItems := l1\<rparr>" by auto
  show ?thesis
  proof (cases r)
    case (Inl e)
    with loop have "snd (displayPaymentSummary_resume s) = s1"
      by (simp add: displayPaymentSummary_resume_def)
    with s1 show ?thesis by (intro exI) simp
  next
    case (Inr cur)
    obtain r2 s2 where rr: "rerenderTotal cur s1 = (r2, s2)" by (cases "rerenderTotal cur s1")
    from rerenderTotal_frame [of cur s1] rr
    obtain d2 where "s2 = s1\<lparr>document := d2\<rparr>" by auto
    with s1 have s2: "s2 = s\<lparr>document := d2, lineItems := l1\<rparr>" by simp
    have "snd (displayPaymentSummary_resume s) = s2"
      using loop Inr rr by (cases r2) (simp_all add: displayPaymentSummary_resume_def)
    with s2 show ?thesis by (intro exI) simp
  qed
qed

lemma after_resolve_frame:
  "\<exists>d l w. after_resolve s = s\<lparr>document := d, lineItems := l, summary_waiting := w\<rparr>"
proof (cases "loader s = Resolved \<and> summary_waiting s")
  case True
  from displayPaymentSummary_resume_frame [of "s\<lparr>summary_waiting := False\<rparr>"]
  obtain d l where
    "snd (displayPaymentSummary_resume (s\<lparr>summary_waiting := False\<rparr>)) =
       (s\<lparr>summary_waiting := False\<rparr>)\<lparr>document := d, lineItems := l\<rparr>"
    by (elim exE) (rule that)
  with True have "after_resolve s = s\<lparr>document := d, lineItems := l, summary_waiting := False\<rparr>"
    by (simp add: after_resolve_def)
  then show ?thesis by (intro exI)
next
  case False
  then have "after_resolve s = s" by (auto simp add: after_resolve_def)
  then have "after_resolve s =
      s\<lparr>document := document s, lineItems := lineItems s, summary_waiting := summary_waiting s\<rparr>"
    by simp
  then show ?thesis by (intro exI)
qed

text \<open>
  The loop of the executor enters products in the catalog, sets their quantities to 0 and
  asks for SKUs; it never asks for \<open>/products\<close>.
\<close>

lemma products_loop_frame:
  "\<exists>c q rs l.
     products_loop ps s = s\<lparr>products := c, quantity := q, requests := rs, loader := l\<rparr>
     \<and> (\<forall>k v. q k = Some v \<longrightarrow> quantity s k = Some v \<or> v = 0)
     \<and> filter (\<lambda>r. r = Get ''/products'') rs = filter (\<lambda>r. r = Get ''/products'') (requests s)"
proof (induction ps arbitrary: s)
  case Nil
  have "products_loop [] s =
      s\<lparr>products := products s, quantity := quantity s, requests := requests s, loader := Resolved\<rparr>"
    by simp
  then show ?case by (intro exI conjI) (assumption, simp_all)
next
  case (Cons product rest)
  define s1 where
    "s1 = s\<lparr>products := AList.update (product_id product) product (products s),
            quantity := (quantity s)(product_id product \<mapsto> 0)\<rparr>"
  show ?case
  proof (cases "skus product")
    case None
    then have "products_loop (product # rest) s =
        s\<lparr>products := AList.update (product_id product) product (products s),
          quantity := (quantity s)(product_id product \<mapsto> 0),
          requests := requests s @ [Get (''/products/'' @ product_id product @ ''/skus'')],
          loader := AwaitingSkus (product_id product) rest\<rparr>"
      by (simp add: loadSkus_call_def)
    then show ?thesis by (intro exI conjI) (assumption, simp_all)
  next
    case (Some ks)
    from Cons.IH [of s1] obtain c q rs l where
      eq: "products_loop rest s1 = s1\<lparr>products := c, quantity := q, requests := rs, loader := l\<rparr>"
      and qs: "\<forall>k v. q k = Some v \<longrightarrow> quantity s1 k = Some v \<or> v = 0"
      and rq: "filter (\<lambda>r. r = Get ''/products'') rs = filter (\<lambda>r. r = Get ''/products'') (requests s1)"
      by (elim exE conjE) (rule that)
    from Some eq have "products_loop (product # rest) s =
        s\<lparr>products := c, quantity := q, requests := rs, loader := l\<rparr>"
      by (simp add: s1_def)
    moreover from qs have "\<forall>k v. q k = Some v \<longrightarrow> quantity s k = Some v \<or> v = 0"
      by (auto simp add: s1_def split: if_splits)
    moreover from rq have
      "filter (\<lambda>r. r = Get ''/products'') rs = filter (\<lambda>r. r = Get ''/products'') (requests s)"
      by (simp add: s1_def)
    ultimately show ?thesis by (intro exI conjI)
  qed
qed

lemma loadSkus_settle_frame: "\<exists>c. snd (loadSkus_settle pid out s) = s\<lparr>products := c\<rparr>"
proof -
  have same: "\<exists>c. s = s\<lparr>products := c\<rparr>"
    by (rule exI [of _ "products s"]) simp
  show ?thesis
  proof (cases out)
    case (Json ks)
    with same show ?thesis
      by (cases "map_of (products s) pid") (auto simp add: loadSkus_settle_def)
  qed (use same in \<open>simp_all add: loadSkus_settle_def\<close>)
qed

text \<open>
  A step of the page keeps the promise of the catalog, and adds no request for
  \<open>/products\<close> once that promise exists.
\<close>

lemma step_keeps_promise:
  assumes "productsFetchPromise s = Some p"
  shows "productsFetchPromise (step e s) = Some p
         \<and> filter (\<lambda>r. r = Get ''/products'') (requests (step e s)) =
             filter (\<lambda>r. r = Get ''/products'') (requests s)"
proof (cases e)
  case (ProductsSettle out)
  show ?thesis
  proof (cases "loader s = AwaitingProducts \<and> (\<exists>ps. out = Json ps \<and> ps \<noteq> [])")
    case True
    then obtain ps where out: "out = Json ps" "ps \<noteq> []" by blast
    from products_loop_frame [of ps s] obtain c q rs l where
      eq: "products_loop ps s = s\<lparr>products := c, quantity := q, requests := rs, loader := l\<rparr>"
      and rq: "filter (\<lambda>r. r = Get ''/products'') rs = filter (\<lambda>r. r = Get ''/products'') (requests s)"
      by (elim exE conjE) (rule that)
    from after_resolve_frame [of "products_loop ps s"] obtain d li w where
      "after_resolve (products_loop ps s) =
         (products_loop ps s)\<lparr>document := d, lineItems := li, summary_waiting := w\<rparr>"
      by (elim exE) (rule that)
    with True out ProductsSettle eq rq assms show ?thesis
      by (simp add: products_settle_def)
  next
    case False
    with ProductsSettle assms show ?thesis
      by (cases out; cases "loader s") (auto simp add: products_settle_def)
  qed
next
  case (SkusSettle out)
  show ?thesis
  proof (cases "loader s")
    case (AwaitingSkus pid rest)
    from loadSkus_settle_frame [of pid out s] obtain c0 where
      s1: "snd (loadSkus_settle pid out s) = s\<lparr>products := c0\<rparr>" by (elim exE) (rule that)
    define t where "t = s\<lparr>products := c0\<rparr>"
    from products_loop_frame [of rest t] obtain c q rs l where
      eq: "products_loop rest t = t\<lparr>products := c, quantity := q, requests := rs, loader := l\<rparr>"
      and rq: "filter (\<lambda>r. r = Get ''/products'') rs = filter (\<lambda>r. r = Get ''/products'') (requests t)"
      by (elim exE conjE) (rule that)
    from after_resolve_frame [of "products_loop rest t"] obtain d li w where
      ar: "after_resolve (products_loop rest t) =
         (products_loop rest t)\<lparr>document := d, lineItems := li, summary_waiting := w\<rparr>"
      by (elim exE) (rule that)
    have "step e s = after_resolve (products_loop rest t)"
      using SkusSettle AwaitingSkus s1 by (simp add: skus_settle_def t_def)
    with ar eq rq assms show ?thesis by (simp add: t_def)
  qed (use SkusSettle assms in simp_all)
next
  case (IntentSettle out)
  with assms show ?thesis
    by (cases out) (simp_all add: createPaymentIntent_settle_def Let_def split: option.splits)
next
  case CallLoadProducts
  with assms show ?thesis by (simp add: loadProducts_def)
next
  case (CallGetConfig out)
  with assms show ?thesis by (cases out) (simp_all add: getConfig_def Let_def)
next
  case (Input pid v)
  show ?thesis
  proof (cases "inputs (document s) pid")
    case None
    with Input assms show ?thesis by simp
  next
    case (Some old)
    define t where "t = s\<lparr>document := (document s)\<lparr>inputs := (inputs (document s))(pid \<mapsto> v)\<rparr>\<rparr>"
    have input: "inputs (document t) pid = Some v" by (simp add: t_def)
    from updateQuantity_shape [OF input] obtain d rs n where
      eq: "snd (updateQuantity pid t) =
             t\<lparr>quantity := (quantity t)(pid \<mapsto> or_zero (parseInt v)),
               lineItems := set_quantity pid (parseInt v) (lineItems t),
               document := d, requests := rs, intents_in_flight := n\<rparr>"
      and rs: "rs = requests t \<or> (\<exists>b. rs = requests t @ [Post ''/payment_intents'' b])"
      by (elim exE conjE) (rule that)
    from rs have "filter (\<lambda>r. r = Get ''/products'') rs = filter (\<lambda>r. r = Get ''/products'') (requests s)"
      by (auto simp add: t_def)
    with Input Some eq assms show ?thesis by (simp add: t_def)
  qed
qed

lemma run_keeps_promise:
  "productsFetchPromise s = Some p \<Longrightarrow>
   productsFetchPromise (run es s) = Some p
   \<and> filter (\<lambda>r. r = Get ''/products'') (requests (run es s)) =
       filter (\<lambda>r. r = Get ''/products'') (requests s)"
proof (induction es arbitrary: s)
  case Nil
  then show ?case by simp
next
  case (Cons e es)
  from step_keeps_promise [OF Cons.prems, of e]
  have kept: "productsFetchPromise (step e s) = Some p"
    and same: "filter (\<lambda>r. r = Get ''/products'') (requests (step e s)) =
               filter (\<lambda>r. r = Get ''/products'') (requests s)"
    by simp_all
  from Cons.IH [OF kept] same show ?case by simp
qed

lemma new_Store_promise:
  "productsFetchPromise (new_Store page) = Some 0 \<and> requests (new_Store page) = [Get ''/products'']"
  by (simp add: new_Store_def fresh_def loadProducts_def)

subsection \<open>One load of the catalog\<close>

text \<open>
  C6. A call of \<open>loadProducts\<close> that follows another one, in particular while the first
  is pending, returns the same promise and leaves the store as it is: it sends no request
  and does not start the executor again. Only a call that finds no promise asks for
  \<open>/products\<close>, once. On the page, whatever happens after \<open>new Store()\<close>, every call of
  \<open>loadProducts\<close> returns the promise that the constructor's call created, and the log
  holds exactly one request for \<open>/products\<close>.
\<close>

theorem loadProducts_memoized:
  "loadProducts (snd (loadProducts s)) = (fst (loadProducts s), snd (loadProducts s))
   \<and> (productsFetchPromise s = None \<longrightarrow>
        requests (snd (loadProducts s)) = requests s @ [Get ''/products''])
   \<and> loadProducts (run es (new_Store page)) = (0, run es (new_Store page))
   \<and> filter (\<lambda>r. r = Get ''/products'') (requests (run es (new_Store page))) = [Get ''/products'']"
proof -
  have twice: "loadProducts (snd (loadProducts s)) = (fst (loadProducts s), snd (loadProducts s))"
    by (cases "productsFetchPromise s") (simp_all add: loadProducts_def)
  have first: "productsFetchPromise s = None \<longrightarrow>
        requests (snd (loadProducts s)) = requests s @ [Get ''/products'']"
    by (simp add: loadProducts_def)
  from new_Store_promise [of page] have start: "productsFetchPromise (new_Store page) = Some 0"
    and log: "requests (new_Store page) = [Get ''/products'']"
    by simp_all
  from run_keeps_promise [OF start, of es] log
  have kept: "productsFetchPromise (run es (new_Store page)) = Some 0"
    and one: "filter (\<lambda>r. r = Get ''/products'') (requests (run es (new_Store page))) = [Get ''/products'']"
    by simp_all
  from kept have "loadProducts (run es (new_Store page)) = (0, run es (new_Store page))"
    by (simp add: loadProducts_def)
  with twice first one show ?thesis by (intro conjI)
qed

theorem loadProducts_memoized_witness:
  "productsFetchPromise (fresh demo_page) = None
   \<and> requests (snd (loadProducts (fresh demo_page))) = [Get ''/products'']
   \<and> loadProducts (snd (loadProducts (fresh demo_page))) =
       (fst (loadProducts (fresh demo_page)), snd (loadProducts (fresh demo_page)))
   \<and> loadProducts (run [CallLoadProducts, ProductsSettle (Json [shirt]), CallLoadProducts]
        (new_Store demo_page)) =
       (0, run [CallLoadProducts, ProductsSettle (Json [shirt]), CallLoadProducts] (new_Store demo_page))"
proof -
  have h: "productsFetchPromise (fresh demo_page) = None" "requests (fresh demo_page) = []"
    by (simp_all add: fresh_def)
  from loadProducts_memoized [of "fresh demo_page"
      "[CallLoadProducts, ProductsSettle (Json [shirt]), CallLoadProducts]" demo_page] h
  show ?thesis by simp
qed

subsection \<open>The values of the quantity map\<close>

lemma products_loop_zero:
  "quantity s k = Some 0 \<Longrightarrow> quantity (products_loop ps s) k = Some 0"
proof (induction ps arbitrary: s)
  case Nil
  then show ?case by simp
next
  case (Cons product rest)
  define s1 where
    "s1 = s\<lparr>products := AList.update (product_id product) product (products s),
            quantity := (quantity s)(product_id product \<mapsto> 0)\<rparr>"
  from Cons.prems have "quantity s1 k = Some 0" by (simp add: s1_def)
  from Cons.IH [OF this] show ?case
    using Cons.prems by (cases "skus product") (simp_all add: s1_def loadSkus_call_def)
qed

lemma step_quantity:
  assumes "quantity (step e s) k = Some v"
  shows "quantity s k = Some v \<or> v = 0 \<or> (\<exists>raw. e = Input k raw \<and> parseInt raw = JNum v)"
proof (cases e)
  case (ProductsSettle out)
  show ?thesis
  proof (cases "loader s = AwaitingProducts \<and> (\<exists>ps. out = Json ps \<and> ps \<noteq> [])")
    case True
    then obtain ps where out: "out = Json ps" "ps \<noteq> []" by blast
    from products_loop_frame [of ps s] obtain c q rs l where
      eq: "products_loop ps s = s\<lparr>products := c, quantity := q, requests := rs, loader := l\<rparr>"
      and qs: "\<forall>k v. q k = Some v \<longrightarrow> quantity s k = Some v \<or> v = 0"
      by (elim exE conjE) (rule that)
    from after_resolve_frame [of "products_loop ps s"] obtain d li w where
      "after_resolve (products_loop ps s) =
         (products_loop ps s)\<lparr>document := d, lineItems := li, summary_waiting := w\<rparr>"
      by (elim exE) (rule that)
    with True out ProductsSettle eq have "quantity (step e s) = q"
      by (simp add: products_settle_def)
    with assms qs show ?thesis by auto
  next
    case False
    with ProductsSettle have "quantity (step e s) = quantity s"
      by (cases out; cases "loader s") (auto simp add: products_settle_def)
    with assms show ?thesis by simp
  qed
next
  case (SkusSettle out)
  show ?thesis
  proof (cases "loader s")
    case (AwaitingSkus pid rest)
    from loadSkus_settle_frame [of pid out s] obtain c0 where
      s1: "snd (loadSkus_settle pid out s) = s\<lparr>products := c0\<rparr>" by (elim exE) (rule that)
    define t where "t = s\<lparr>products := c0\<rparr>"
    from products_loop_frame [of rest t] obtain c q rs l where
      eq: "products_loop rest t = t\<lparr>products := c, quantity := q, requests := rs, loader := l\<rparr>"
      and qs: "\<forall>k v. q k = Some v \<longrightarrow> quantity t k = Some v \<or> v = 0"
      by (elim exE conjE) (rule that)
    from after_resolve_frame [of "products_loop rest t"] obtain d li w where
      ar: "after_resolve (products_loop rest t) =
         (products_loop rest t)\<lparr>document := d, lineItems := li, summary_waiting := w\<rparr>"
      by (elim exE) (rule that)
    have "step e s = after_resolve (products_loop rest t)"
      using SkusSettle AwaitingSkus s1 by (simp add: skus_settle_def t_def)
    with ar eq have "quantity (step e s) = q" by simp
    with assms qs show ?thesis by (auto simp add: t_def)
  qed (use SkusSettle assms in simp_all)
next
  case (IntentSettle out)
  then have "quantity (step e s) = quantity s"
    by (cases out) (simp_all add: createPaymentIntent_settle_def Let_def split: option.splits)
  with assms show ?thesis by simp
next
  case CallLoadProducts
  then have "quantity (step e s) = quantity s"
    by (cases "productsFetchPromise s") (simp_all add: loadProducts_def)
  with assms show ?thesis by simp
next
  case (CallGetConfig out)
  then have "quantity (step e s) = quantity s"
    by (cases out) (simp_all add: getConfig_def Let_def)
  with assms show ?thesis by simp
next
  case (Input pid raw)
  show ?thesis
  proof (cases "inputs (document s) pid")
    case None
    with Input assms show ?thesis by simp
  next
    case (Some old)
    define t where "t = s\<lparr>document := (document s)\<lparr>inputs := (inputs (document s))(pid \<mapsto> raw)\<rparr>\<rparr>"
    have input: "inputs (document t) pid = Some raw" by (simp add: t_def)
    from Input Some have "step e s = snd (updateQuantity pid t)" by (simp add: t_def)
    with updateQuantity_quantity [OF input]
    have q: "quantity (step e s) = (quantity s)(pid \<mapsto> or_zero (parseInt raw))"
      by (simp add: t_def)
    show ?thesis
    proof (cases "k = pid")
      case True
      with assms q have "v = or_zero (parseInt raw)" by simp
      with True Input show ?thesis by (cases "parseInt raw") simp_all
    next
      case False
      with assms q show ?thesis by simp
    qed
  qed
qed

lemma run_quantity:
  "quantity (run es s) k = Some v \<Longrightarrow>
   quantity s k = Some v \<or> v = 0 \<or> (\<exists>raw. Input k raw \<in> set es \<and> parseInt raw = JNum v)"
proof (induction es arbitrary: s)
  case Nil
  then show ?case by simp
next
  case (Cons e es)
  from Cons.IH [OF Cons.prems [simplified]]
  consider "quantity (step e s) k = Some v" | "v = 0"
    | raw where "Input k raw \<in> set es" "parseInt raw = JNum v"
    by blast
  then show ?case
  proof cases
    case 1
    from step_quantity [OF this] show ?thesis by auto
  next
    case 2
    then show ?thesis by simp
  next
    case 3
    then show ?thesis by auto
  qed
qed

text \<open>
  C8, as the code has it. In every state the page can reach, every value in the quantity
  map is an integer: 0, which is what the loader stores for each product it enters and
  what \<open>updateQuantity\<close> stores for a value that is not a number, or else the integer
  that \<open>parseInt\<close> read from a value left in the input of that product. The code has no
  test of the sign, so the values are non-negative exactly as far as the values typed
  are: when no input parsed to a negative number, every stored value is non-negative.
\<close>

theorem quantity_values:
  "(\<forall>k v. quantity (run es (new_Store page)) k = Some v \<longrightarrow>
       v = 0 \<or> (\<exists>raw. Input k raw \<in> set es \<and> parseInt raw = JNum v))
   \<and> (list_all not_negative es \<longrightarrow>
        (\<forall>k v. quantity (run es (new_Store page)) k = Some v \<longrightarrow> 0 \<le> v))
   \<and> quantity (products_loop (p # ps) s) (product_id p) = Some 0
   \<and> (inputs (document s) k = Some raw \<longrightarrow>
        quantity (snd (updateQuantity k s)) k = Some (or_zero (parseInt raw)))
   \<and> or_zero JNaN = 0"
proof -
  have empty: "quantity (new_Store page) = Map.empty"
    by (simp add: new_Store_def fresh_def loadProducts_def)
  have zero_or_typed: "v = 0 \<or> (\<exists>raw. Input k raw \<in> set es \<and> parseInt raw = JNum v)"
    if "quantity (run es (new_Store page)) k = Some v" for k v
    using run_quantity [OF that] by (simp add: empty)
  have signs: "0 \<le> v"
    if ok: "list_all not_negative es" and stored: "quantity (run es (new_Store page)) k = Some v"
    for k v
  proof -
    from zero_or_typed [OF stored] show ?thesis
    proof
      assume "v = 0"
      then show ?thesis by simp
    next
      assume "\<exists>raw. Input k raw \<in> set es \<and> parseInt raw = JNum v"
      then obtain raw where "Input k raw \<in> set es" and parsed: "parseInt raw = JNum v" by blast
      with ok have "not_negative (Input k raw)" by (auto simp add: list_all_iff)
      with parsed show ?thesis by simp
    qed
  qed
  have loaded_zero: "quantity (products_loop (p # ps) s) (product_id p) = Some 0"
  proof -
    define s1 where
      "s1 = s\<lparr>products := AList.update (product_id p) p (products s),
              quantity := (quantity s)(product_id p \<mapsto> 0)\<rparr>"
    have "quantity s1 (product_id p) = Some 0" by (simp add: s1_def)
    from products_loop_zero [OF this, of ps] show ?thesis
      by (cases "skus p") (simp_all add: s1_def loadSkus_call_def)
  qed
  have stored: "inputs (document s) k = Some raw \<longrightarrow>
        quantity (snd (updateQuantity k s)) k = Some (or_zero (parseInt raw))"
    by (simp add: updateQuantity_quantity)
  from zero_or_typed signs loaded_zero stored show ?thesis by auto
qed

lemma shirt_3_events:
  "list_all not_negative
     [ProductsSettle (Json [shirt]), CallGetConfig (Json demo_config), Input ''shirt'' ''3'']"
  by (simp add: parseInt_3)

theorem quantity_values_witness:
  "list_all not_negative
     [ProductsSettle (Json [shirt]), CallGetConfig (Json demo_config), Input ''shirt'' ''3'']
   \<and> quantity (run [ProductsSettle (Json [shirt]), CallGetConfig (Json demo_config),
                     Input ''shirt'' ''3''] (new_Store demo_page)) ''shirt'' = Some 3
   \<and> \<not> (\<exists>k v. quantity (run [ProductsSettle (Json [shirt]), CallGetConfig (Json demo_config),
                     Input ''shirt'' ''3''] (new_Store demo_page)) k = Some v \<and> v < 0)"
proof -
  have three: "quantity (run [ProductsSettle (Json [shirt]), CallGetConfig (Json demo_config),
                     Input ''shirt'' ''3''] (new_Store demo_page)) ''shirt'' = Some 3"
  proof -
    have "run [ProductsSettle (Json [shirt]), CallGetConfig (Json demo_config),
               Input ''shirt'' ''3''] (new_Store demo_page) = step (Input ''shirt'' ''3'') loaded"
      by (simp only: run.simps loaded_def)
    also have "\<dots> = snd (updateQuantity ''shirt'' (typed ''3'' loaded))"
      by (simp add: loaded_eq typed_def)
    finally have eq: "run [ProductsSettle (Json [shirt]), CallGetConfig (Json demo_config),
               Input ''shirt'' ''3''] (new_Store demo_page) =
               snd (updateQuantity ''shirt'' (typed ''3'' loaded))" .
    have input: "inputs (document (typed ''3'' loaded)) ''shirt'' = Some ''3''"
      by (simp add: typed_def)
    show ?thesis
      unfolding eq updateQuantity_quantity [OF input] parseInt_3 by simp
  qed
  from quantity_values [of "[ProductsSettle (Json [shirt]), CallGetConfig (Json demo_config),
      Input ''shirt'' ''3'']" demo_page shirt "[]" "fresh demo_page" "''shirt''" "''3''"]
    shirt_3_events
  have "\<forall>k v. quantity (run [ProductsSettle (Json [shirt]), CallGetConfig (Json demo_config),
                     Input ''shirt'' ''3''] (new_Store demo_page)) k = Some v \<longrightarrow> 0 \<le> v"
    by blast
  then have "\<not> (\<exists>k v. quantity (run [ProductsSettle (Json [shirt]), CallGetConfig (Json demo_config),
                     Input ''shirt'' ''3''] (new_Store demo_page)) k = Some v \<and> v < 0)"
    by fastforce
  with shirt_3_events three show ?thesis by (intro conjI)
qed

lemma parseInt_minus_5: "parseInt ''-5'' = JNum (- 5)"
  by (simp add: parse_defs)

text \<open>
  The claim of the specification fails on the shirt page: after \<open>-5\<close> has been typed, the
  quantity of the shirt is negative.
\<close>

theorem quantity_values_counterexample:
  "\<not> (\<forall>es k v. quantity (run es (new_Store demo_page)) k = Some v \<longrightarrow> 0 \<le> v)"
proof
  assume claim: "\<forall>es k v. quantity (run es (new_Store demo_page)) k = Some v \<longrightarrow> 0 \<le> v"
  have "run [ProductsSettle (Json [shirt]), CallGetConfig (Json demo_config),
             Input ''shirt'' ''-5''] (new_Store demo_page) = step (Input ''shirt'' ''-5'') loaded"
    by (simp only: run.simps loaded_def)
  also have "\<dots> = snd (updateQuantity ''shirt'' (typed ''-5'' loaded))"
    by (simp add: loaded_eq typed_def)
  finally have eq: "run [ProductsSettle (Json [shirt]), CallGetConfig (Json demo_config),
             Input ''shirt'' ''-5''] (new_Store demo_page) =
             snd (updateQuantity ''shirt'' (typed ''-5'' loaded))" .
  have input: "inputs (document (typed ''-5'' loaded)) ''shirt'' = Some ''-5''"
    by (simp add: typed_def)
  have "quantity (run [ProductsSettle (Json [shirt]), CallGetConfig (Json demo_config),
             Input ''shirt'' ''-5''] (new_Store demo_page)) ''shirt'' = Some (- 5)"
    unfolding eq updateQuantity_quantity [OF input] parseInt_minus_5 by simp
  with claim have "(0::int) \<le> - 5" by blast
  then show False by simp
qed

subsection \<open>The order and the quantities agree\<close>

lemma list_all_update:
  "P (k, v) \<Longrightarrow> list_all P al \<Longrightarrow> list_all P (AList.update k v al)"
  by (induction al) auto

lemma keyed_update:
  assumes "keyed c" and "product_id p = k"
  shows "keyed (AList.update k p c)"
proof -
  from assms(1) have "distinct (map fst (AList.update k p c))"
    by (simp add: keyed_def distinct_update)
  moreover from assms have "list_all (\<lambda>entry. product_id (snd entry) = fst entry) (AList.update k p c)"
    by (intro list_all_update) (simp_all add: keyed_def)
  ultimately show ?thesis by (simp add: keyed_def)
qed

lemma covered_update:
  assumes "list_all (\<lambda>entry. q (fst entry) \<noteq> None) c" and "q' k \<noteq> None"
    and "\<And>j. q j \<noteq> None \<Longrightarrow> q' j \<noteq> None"
  shows "list_all (\<lambda>entry. q' (fst entry) \<noteq> None) (AList.update k p c)"
proof (rule list_all_update)
  show "q' (fst (k, p)) \<noteq> None" using assms(2) by simp
  show "list_all (\<lambda>entry. q' (fst entry) \<noteq> None) c"
    using assms(1,3) by (simp add: list_all_iff)
qed

lemma products_loop_catalog:
  "keyed (products s) \<Longrightarrow> list_all (\<lambda>entry. quantity s (fst entry) \<noteq> None) (products s) \<Longrightarrow>
   keyed (products (products_loop ps s))
   \<and> list_all (\<lambda>entry. quantity (products_loop ps s) (fst entry) \<noteq> None)
        (products (products_loop ps s))
   \<and> lineItems (products_loop ps s) = lineItems s
   \<and> productsFetchPromise (products_loop ps s) = productsFetchPromise s
   \<and> summary_waiting (products_loop ps s) = summary_waiting s"
proof (induction ps arbitrary: s)
  case Nil
  then show ?case by simp
next
  case (Cons product rest)
  define s1 where
    "s1 = s\<lparr>products := AList.update (product_id product) product (products s),
            quantity := (quantity s)(product_id product \<mapsto> 0)\<rparr>"
  from Cons.prems(1) have k1: "keyed (products s1)"
    by (simp add: s1_def keyed_update)
  have "list_all (\<lambda>entry. ((quantity s)(product_id product \<mapsto> 0)) (fst entry) \<noteq> None)
          (AList.update (product_id product) product (products s))"
    by (rule covered_update [OF Cons.prems(2)]) simp_all
  then have c1: "list_all (\<lambda>entry. quantity s1 (fst entry) \<noteq> None) (products s1)"
    by (simp add: s1_def)
  show ?case
  proof (cases "skus product")
    case None
    with k1 c1 show ?thesis by (simp add: s1_def loadSkus_call_def)
  next
    case (Some ks)
    from Cons.IH [OF k1 c1] Some show ?thesis by (simp add: s1_def)
  qed
qed

lemma keyed_map_of:
  "keyed c \<Longrightarrow> (k, p) \<in> set c \<Longrightarrow> map_of c k = Some p \<and> product_id p = k"
  by (auto simp add: keyed_def list_all_iff)

lemma loadSkus_settle_catalog:
  assumes "keyed (products s)" and "list_all (\<lambda>entry. quantity s (fst entry) \<noteq> None) (products s)"
  shows "keyed (products (snd (loadSkus_settle pid out s)))
   \<and> list_all (\<lambda>entry. quantity s (fst entry) \<noteq> None) (products (snd (loadSkus_settle pid out s)))
   \<and> (\<exists>c. snd (loadSkus_settle pid out s) = s\<lparr>products := c\<rparr>)"
proof (cases "\<exists>ks p. out = Json ks \<and> map_of (products s) pid = Some p")
  case True
  then obtain ks p where out: "out = Json ks" and p: "map_of (products s) pid = Some p" by blast
  from p have "(pid, p) \<in> set (products s)" by (rule map_of_SomeD)
  with assms have id: "product_id p = pid" and has: "quantity s pid \<noteq> None"
    by (auto simp add: keyed_def list_all_iff)
  from out p have eq: "snd (loadSkus_settle pid out s) =
      s\<lparr>products := AList.update pid (p\<lparr>skus := Some ks\<rparr>) (products s)\<rparr>"
    by (simp add: loadSkus_settle_def)
  from assms(1) id have "keyed (AList.update pid (p\<lparr>skus := Some ks\<rparr>) (products s))"
    by (intro keyed_update) simp_all
  moreover from assms(2) has
  have "list_all (\<lambda>entry. quantity s (fst entry) \<noteq> None)
          (AList.update pid (p\<lparr>skus := Some ks\<rparr>) (products s))"
    by (intro covered_update) simp_all
  ultimately show ?thesis unfolding eq by auto
next
  case False
  then have "snd (loadSkus_settle pid out s) = s"
    by (cases out; cases "map_of (products s) pid") (simp_all add: loadSkus_settle_def)
  moreover have "\<exists>c. s = s\<lparr>products := c\<rparr>" by (rule exI [of _ "products s"]) simp
  ultimately show ?thesis using assms by simp
qed

lemma counted_cong:
  "quantity t = quantity s \<Longrightarrow> products t = products s \<Longrightarrow> counted t item = counted s item"
  by (simp add: counted_def priced_def first_sku_def unit_price_def)

lemma consistent_cong:
  assumes "lineItems t = lineItems s" and "products t = products s" and "quantity t = quantity s"
    and "productsFetchPromise t = productsFetchPromise s" and "loader t = loader s"
    and "summary_waiting t = summary_waiting s"
  shows "consistent t = consistent s"
proof -
  have "list_all (counted t) (lineItems s) = list_all (counted s) (lineItems s)"
    using counted_cong [OF assms(3,2)] by (simp add: list_all_iff)
  then show ?thesis by (simp add: consistent_def assms)
qed

text \<open>The loop of the summary adds one consistent line item per entry it gets through.\<close>

lemma summary_loop_items:
  assumes "list_all (\<lambda>entry. product_id (snd entry) = fst entry \<and> quantity s (fst entry) \<noteq> None
                       \<and> map_of (products s) (fst entry) = Some (snd entry)) entries"
    and "distinct (map fst entries)"
    and "distinct (map li_product (lineItems s))"
    and "set (map li_product (lineItems s)) \<inter> set (map fst entries) = {}"
    and "list_all (counted s) (lineItems s)"
  shows "distinct (map li_product (lineItems (snd (summary_loop entries cur s))))
         \<and> list_all (counted s) (lineItems (snd (summary_loop entries cur s)))"
  using assms
proof (induction entries arbitrary: s cur)
  case Nil
  then show ?case by simp
next
  case (Cons entry entries)
  obtain pid product where entry: "entry = (pid, product)" by (cases entry)
  from Cons.prems(1) entry obtain q where id: "product_id product = pid"
    and q: "quantity s pid = Some q" and found: "map_of (products s) pid = Some product"
    by auto
  show ?case
  proof (cases "\<exists>sku ks skuPrice lineItemPrice. skus product = Some (sku # ks)
      \<and> formatPrice (JNum (price sku)) (Some (sku_currency sku)) = Inr skuPrice
      \<and> formatPrice (js_times (price sku) (quantity_value s pid)) (Some (sku_currency sku)) = Inr lineItemPrice")
    case True
    then obtain sku ks skuPrice lineItemPrice where sk: "skus product = Some (sku # ks)"
      and f1: "formatPrice (JNum (price sku)) (Some (sku_currency sku)) = Inr skuPrice"
      and f2: "formatPrice (js_times (price sku) (quantity_value s pid)) (Some (sku_currency sku))
                = Inr lineItemPrice"
      by blast
    define item where
      "item = \<lparr>li_product = pid, li_sku = sku_id sku, li_quantity = JNum q\<rparr>"
    define s1 where
      "s1 = s\<lparr>document := (document s)
                 \<lparr>inputs := add_element (inputs (document s)) pid (input_value (JNum q)),
                  prices := add_element (prices (document s)) pid lineItemPrice\<rparr>,
               lineItems := lineItems s @ [item]\<rparr>"
    from entry sk f1 f2 id q
    have unfold: "summary_loop (entry # entries) cur s =
        summary_loop entries (Some (sku_currency sku)) s1"
      by (simp add: s1_def item_def quantity_value_def)
    have same: "quantity s1 = quantity s" "products s1 = products s" by (simp_all add: s1_def)
    have "counted s item"
      using q found sk by (simp add: counted_def item_def priced_def first_sku_def unit_price_def)
    moreover have "lineItems s1 = lineItems s @ [item]" by (simp add: s1_def)
    ultimately have c1: "list_all (counted s1) (lineItems s1)"
      using Cons.prems(5) by (simp add: counted_cong [OF same] list_all_iff)
    from Cons.prems(1) have e1:
      "list_all (\<lambda>entry. product_id (snd entry) = fst entry \<and> quantity s1 (fst entry) \<noteq> None
                       \<and> map_of (products s1) (fst entry) = Some (snd entry)) entries"
      by (simp add: same)
    from Cons.prems(2) have d1: "distinct (map fst entries)" and fresh: "pid \<notin> set (map fst entries)"
      by (simp_all add: entry)
    from Cons.prems(3,4) have i1: "distinct (map li_product (lineItems s1))"
      by (auto simp add: s1_def item_def entry)
    from Cons.prems(4) fresh
    have j1: "set (map li_product (lineItems s1)) \<inter> set (map fst entries) = {}"
      by (auto simp add: s1_def item_def entry)
    from Cons.IH [OF e1 d1 i1 j1 c1, of "Some (sku_currency sku)"]
    have "distinct (map li_product (lineItems (snd (summary_loop entries (Some (sku_currency sku)) s1))))
        \<and> list_all (counted s1) (lineItems (snd (summary_loop entries (Some (sku_currency sku)) s1)))"
      .
    then show ?thesis
      unfolding unfold by (simp add: counted_cong [OF same] list_all_iff)
  next
    case False
    then have "snd (summary_loop (entry # entries) cur s) = s"
      by (auto simp add: entry split: option.splits list.splits sum.splits)
    with Cons.prems show ?thesis by simp
  qed
qed

lemma after_resolve_consistent:
  assumes "productsFetchPromise s \<noteq> None" and "keyed (products s)"
    and "list_all (\<lambda>entry. quantity s (fst entry) \<noteq> None) (products s)"
    and "lineItems s = []"
  shows "consistent (after_resolve s)"
proof (cases "loader s = Resolved \<and> summary_waiting s")
  case False
  then have "after_resolve s = s" by (auto simp add: after_resolve_def)
  with assms show ?thesis by (simp add: consistent_def)
next
  case True
  define t where "t = s\<lparr>summary_waiting := False\<rparr>"
  have t: "products t = products s" "quantity t = quantity s" "lineItems t = []"
    "loader t = Resolved" "\<not> summary_waiting t" "productsFetchPromise t = productsFetchPromise s"
    using assms(4) True by (simp_all add: t_def)
  from True have eq: "after_resolve s = snd (displayPaymentSummary_resume t)"
    by (simp add: after_resolve_def t_def)
  obtain r t1 where loop: "summary_loop (object_entries (products t)) None t = (r, t1)"
    by (cases "summary_loop (object_entries (products t)) None t")
  from summary_loop_frame [of "object_entries (products t)" None t] loop
  obtain d1 l1 where t1: "t1 = t\<lparr>document := d1, lineItems := l1\<rparr>" by auto
  have entries: "list_all (\<lambda>entry. product_id (snd entry) = fst entry \<and> quantity t (fst entry) \<noteq> None
                       \<and> map_of (products t) (fst entry) = Some (snd entry))
                   (object_entries (products t))"
    using assms(2,3) keyed_map_of [OF assms(2)] by (auto simp add: t list_all_iff)
  from assms(2) have dist: "distinct (map fst (object_entries (products t)))"
    by (intro object_entries_distinct) (simp add: keyed_def t)
  from summary_loop_items [OF entries dist, of None] loop t(3)
  have items: "distinct (map li_product (lineItems t1))" "list_all (counted t) (lineItems t1)"
    by simp_all
  from displayPaymentSummary_resume_frame [of t] obtain d l where
    fin: "snd (displayPaymentSummary_resume t) = t\<lparr>document := d, lineItems := l\<rparr>"
    by (elim exE) (rule that)
  have "lineItems (snd (displayPaymentSummary_resume t)) = lineItems t1"
  proof (cases r)
    case (Inl e)
    with loop show ?thesis by (simp add: displayPaymentSummary_resume_def)
  next
    case (Inr cur)
    obtain r2 t2 where rr: "rerenderTotal cur t1 = (r2, t2)" by (cases "rerenderTotal cur t1")
    from rerenderTotal_frame [of cur t1] rr obtain d2 where "t2 = t1\<lparr>document := d2\<rparr>" by auto
    with loop Inr rr show ?thesis
      by (cases r2) (simp_all add: displayPaymentSummary_resume_def)
  qed
  then have l: "lineItems (after_resolve s) = lineItems t1" by (simp add: eq)
  from fin have u: "quantity (after_resolve s) = quantity t" "products (after_resolve s) = products t"
    "loader (after_resolve s) = Resolved" "\<not> summary_waiting (after_resolve s)"
    "productsFetchPromise (after_resolve s) = productsFetchPromise s"
    by (simp_all add: eq t)
  from items(2) have "list_all (counted (after_resolve s)) (lineItems (after_resolve s))"
    unfolding l by (simp add: counted_cong [OF u(1,2)] list_all_iff)
  with items(1) assms(1,2,3) show ?thesis
    by (simp add: consistent_def l u t)
qed

lemma set_quantity_products: "map li_product (set_quantity pid q items) = map li_product items"
  by (induction items) simp_all

lemma set_quantity_member:
  "distinct (map li_product items) \<Longrightarrow> item \<in> set (set_quantity pid q items) \<Longrightarrow>
   (li_product item = pid \<and> li_quantity item = q) \<or> (li_product item \<noteq> pid \<and> item \<in> set items)"
proof (induction items)
  case Nil
  then show ?case by simp
next
  case (Cons first items)
  show ?case
  proof (cases "li_product first = pid")
    case True
    with Cons.prems(2) have "item = first\<lparr>li_quantity := q\<rparr> \<or> item \<in> set items" by simp
    then show ?thesis
    proof
      assume "item = first\<lparr>li_quantity := q\<rparr>"
      with True show ?thesis by simp
    next
      assume rest: "item \<in> set items"
      then have "li_product item \<in> set (map li_product items)" by simp
      moreover from Cons.prems(1) True have "pid \<notin> set (map li_product items)" by simp
      ultimately have "li_product item \<noteq> pid" by blast
      with rest show ?thesis by simp
    qed
  next
    case False
    with Cons show ?thesis by auto
  qed
qed

lemma settle_fields:
  "lineItems (snd (createPaymentIntent_settle out s)) = lineItems s
   \<and> products (snd (createPaymentIntent_settle out s)) = products s
   \<and> quantity (snd (createPaymentIntent_settle out s)) = quantity s
   \<and> productsFetchPromise (snd (createPaymentIntent_settle out s)) = productsFetchPromise s
   \<and> loader (snd (createPaymentIntent_settle out s)) = loader s
   \<and> summary_waiting (snd (createPaymentIntent_settle out s)) = summary_waiting s"
  by (cases out) (simp_all add: createPaymentIntent_settle_def Let_def split: option.splits)

lemma getConfig_fields:
  "lineItems (snd (getConfig out s)) = lineItems s
   \<and> products (snd (getConfig out s)) = products s
   \<and> quantity (snd (getConfig out s)) = quantity s
   \<and> productsFetchPromise (snd (getConfig out s)) = productsFetchPromise s
   \<and> loader (snd (getConfig out s)) = loader s
   \<and> summary_waiting (snd (getConfig out s)) = summary_waiting s"
  by (cases out) (simp_all add: getConfig_def Let_def)

lemma step_consistent:
  assumes "consistent s"
  shows "consistent (step e s)"
proof (cases e)
  case (ProductsSettle out)
  show ?thesis
  proof (cases "loader s = AwaitingProducts")
    case False
    with ProductsSettle assms show ?thesis by (cases "loader s") simp_all
  next
    case True
    with assms have empty: "lineItems s = []" by (simp add: consistent_def)
    show ?thesis
    proof (cases "\<exists>ps. out = Json ps \<and> ps \<noteq> []")
      case False
      then have "step e s = s\<lparr>loader := Abandoned\<rparr>"
        using ProductsSettle True by (cases out) (auto simp add: products_settle_def)
      with assms empty show ?thesis
        by (simp add: consistent_def counted_def priced_def first_sku_def unit_price_def)
    next
      case ex: True
      then obtain ps where out: "out = Json ps" "ps \<noteq> []" by blast
      from assms have "keyed (products s)"
        "list_all (\<lambda>entry. quantity s (fst entry) \<noteq> None) (products s)"
        "productsFetchPromise s \<noteq> None"
        by (simp_all add: consistent_def)
      with products_loop_catalog [of s ps] empty
      have "consistent (after_resolve (products_loop ps s))"
        by (intro after_resolve_consistent) simp_all
      with ProductsSettle True out show ?thesis by (simp add: products_settle_def)
    qed
  qed
next
  case (SkusSettle out)
  show ?thesis
  proof (cases "loader s")
    case (AwaitingSkus pid rest)
    with assms have empty: "lineItems s = []" by (simp add: consistent_def)
    from assms have k: "keyed (products s)"
      and c: "list_all (\<lambda>entry. quantity s (fst entry) \<noteq> None) (products s)"
      and p: "productsFetchPromise s \<noteq> None"
      by (simp_all add: consistent_def)
    define t where "t = snd (loadSkus_settle pid out s)"
    from loadSkus_settle_catalog [OF k c, of pid out, folded t_def] obtain c0 where
      kt: "keyed (products t)"
      and ct: "list_all (\<lambda>entry. quantity s (fst entry) \<noteq> None) (products t)"
      and t: "t = s\<lparr>products := c0\<rparr>"
      by (elim exE conjE) (rule that)
    from ct t have ct': "list_all (\<lambda>entry. quantity t (fst entry) \<noteq> None) (products t)"
      by simp
    from products_loop_catalog [OF kt ct', of rest] empty p t
    have "consistent (after_resolve (products_loop rest t))"
      by (intro after_resolve_consistent) simp_all
    with SkusSettle AwaitingSkus show ?thesis by (simp add: skus_settle_def t_def)
  qed (use SkusSettle assms in simp_all)
next
  case (IntentSettle out)
  show ?thesis
  proof (cases "0 < intents_in_flight s")
    case False
    with IntentSettle assms show ?thesis by simp
  next
    case True
    from settle_fields [of out s] IntentSettle True have "consistent (step e s) = consistent s"
      by (intro consistent_cong) simp_all
    with assms show ?thesis by simp
  qed
next
  case CallLoadProducts
  with assms show ?thesis by (auto simp add: consistent_def loadProducts_def)
next
  case (CallGetConfig out)
  from getConfig_fields [of out s] CallGetConfig have "consistent (step e s) = consistent s"
    by (intro consistent_cong) simp_all
  with assms show ?thesis by simp
next
  case (Input pid raw)
  show ?thesis
  proof (cases "inputs (document s) pid")
    case None
    with Input assms show ?thesis by simp
  next
    case (Some old)
    define t where "t = s\<lparr>document := (document s)\<lparr>inputs := (inputs (document s))(pid \<mapsto> raw)\<rparr>\<rparr>"
    have input: "inputs (document t) pid = Some raw" by (simp add: t_def)
    from Input Some have st: "step e s = snd (updateQuantity pid t)" by (simp add: t_def)
    from updateQuantity_shape [OF input] obtain d rs n where
      eq: "snd (updateQuantity pid t) =
             t\<lparr>quantity := (quantity t)(pid \<mapsto> or_zero (parseInt raw)),
               lineItems := set_quantity pid (parseInt raw) (lineItems t),
               document := d, requests := rs, intents_in_flight := n\<rparr>"
      by (elim exE conjE) (rule that)
    define u where "u = step e s"
    from st eq have u: "quantity u = (quantity s)(pid \<mapsto> or_zero (parseInt raw))"
      "lineItems u = set_quantity pid (parseInt raw) (lineItems s)"
      "products u = products s" "loader u = loader s" "summary_waiting u = summary_waiting s"
      "productsFetchPromise u = productsFetchPromise s"
      by (simp_all add: u_def t_def)
    from assms have dist: "distinct (map li_product (lineItems s))"
      and old_items: "list_all (counted s) (lineItems s)"
      by (simp_all add: consistent_def)
    have "counted u item" if mem: "item \<in> set (lineItems u)" for item
    proof -
      from set_quantity_member [OF dist mem [unfolded u(2)]]
      show ?thesis
      proof
        assume "li_product item = pid \<and> li_quantity item = parseInt raw"
        moreover from mem have "li_product item \<in> set (map li_product (lineItems s))"
          unfolding u(2) using set_quantity_products [of pid "parseInt raw" "lineItems s"]
          by (metis image_eqI list.set_map)
        then obtain other where "other \<in> set (lineItems s)" "li_product other = li_product item"
          by auto
        with old_items have "priced s other" by (simp add: list_all_iff counted_def)
        with \<open>li_product other = li_product item\<close> have "priced u item"
          using priced_cong [OF u(3), of item other] by simp
        ultimately show ?thesis by (simp add: counted_def u(1))
      next
        assume other: "li_product item \<noteq> pid \<and> item \<in> set (lineItems s)"
        with old_items have "counted s item" by (simp add: list_all_iff)
        with other show ?thesis
          using priced_cong [OF u(3), of item item] by (simp add: counted_def u(1))
      qed
    qed
    then have "list_all (counted u) (lineItems u)" by (simp add: list_all_iff)
    moreover have "distinct (map li_product (lineItems u))"
      unfolding u(2) set_quantity_products by (rule dist)
    moreover from assms have "list_all (\<lambda>entry. quantity u (fst entry) \<noteq> None) (products u)"
      by (simp add: consistent_def u(1,3) list_all_iff)
    moreover have "lineItems u = [] \<longleftrightarrow> lineItems s = []"
      unfolding u(2) by (cases "lineItems s") simp_all
    ultimately show ?thesis
      using assms unfolding u_def [symmetric] by (simp add: consistent_def u(3,4,5,6))
  qed
qed

lemma run_consistent: "consistent s \<Longrightarrow> consistent (run es s)"
  by (induction es arbitrary: s) (simp_all add: step_consistent)

lemma new_Store_consistent: "consistent (new_Store page)"
  by (simp add: consistent_def keyed_def new_Store_def fresh_def loadProducts_def)

text \<open>
  C1, as the code has it. The numbers of the engine are doubles, so \<open>getPaymentTotal\<close>
  is the sum of the claim only while the amounts are small. For every catalog and every
  state of the quantities in which each line item is priced, that is, the catalog holds
  a product under the item's product id and the product has a first SKU,
  \<open>getPaymentTotal\<close> returns the sum, taken from the left over the line items, of the
  quantity times the price of the first SKU of the item's product, each product and each
  partial sum being rounded to the nearest double; when the magnitudes of the products
  add up to less than \<open>2^53\<close> nothing is rounded and the result is the exact sum. It
  raises a \<open>TypeError\<close> when some line item is not priced. The quantity of a line item
  counts as \<open>quantity ? quantity : 0\<close> reads it: a number \<open>n\<close> counts as \<open>n\<close>, so
  that the item amounts to \<open>n\<close> times the price, and zero and \<open>NaN\<close> amount to zero.
  In every state that the page reaches after \<open>new Store()\<close> each line item is priced
  and counts for the quantity stored for its product.
\<close>

theorem getPaymentTotal_sum:
  "(list_all (priced s) (lineItems s) \<longrightarrow>
      getPaymentTotal s = Inr (rounded_sum (map (line_amount s) (lineItems s))))
   \<and> (list_all (priced s) (lineItems s)
        \<and> (\<Sum>item\<leftarrow>lineItems s. \<bar>line_amount s item\<bar>) < 2 ^ 53 \<longrightarrow>
      getPaymentTotal s = Inr (\<Sum>item\<leftarrow>lineItems s. line_amount s item))
   \<and> (\<not> list_all (priced s) (lineItems s) \<longrightarrow> getPaymentTotal s = Inl undefined_property)
   \<and> (\<forall>item p k ks. map_of (products s) (li_product item) = Some p \<and> skus p = Some (k # ks) \<longrightarrow>
         priced s item \<and> first_sku s item = Some k)
   \<and> (\<forall>item k n. first_sku s item = Some k \<and> li_quantity item = JNum n \<longrightarrow>
         line_amount s item = n * price k)
   \<and> (\<forall>item. li_quantity item = JNum 0 \<or> li_quantity item = JNaN \<longrightarrow> line_amount s item = 0)
   \<and> list_all (\<lambda>item. priced (run es (new_Store page)) item
                  \<and> quantity (run es (new_Store page)) (li_product item) =
                      Some (or_zero (li_quantity item)))
        (lineItems (run es (new_Store page)))"
proof -
  have rounded: "list_all (priced s) (lineItems s) \<longrightarrow>
      getPaymentTotal s = Inr (rounded_sum (map (line_amount s) (lineItems s)))"
    using reduce_total_rounded [of s "lineItems s" 0]
    by (simp add: getPaymentTotal_def rounded_sum_def)
  have "(\<Sum>item\<leftarrow>lineItems s. \<bar>line_amount s item\<bar>) < 2 ^ 53 \<Longrightarrow>
      rounded_sum (map (line_amount s) (lineItems s)) = (\<Sum>item\<leftarrow>lineItems s. line_amount s item)"
    using rounded_sum_exact [of "map (line_amount s) (lineItems s)"] by (simp add: comp_def)
  with rounded have exact: "list_all (priced s) (lineItems s)
        \<and> (\<Sum>item\<leftarrow>lineItems s. \<bar>line_amount s item\<bar>) < 2 ^ 53 \<longrightarrow>
      getPaymentTotal s = Inr (\<Sum>item\<leftarrow>lineItems s. line_amount s item)"
    by simp
  have raises: "\<not> list_all (priced s) (lineItems s) \<longrightarrow> getPaymentTotal s = Inl undefined_property"
    using reduce_total_unpriced [of s "lineItems s" 0] by (simp add: getPaymentTotal_def)
  have first: "\<forall>item p k ks. map_of (products s) (li_product item) = Some p \<and> skus p = Some (k # ks) \<longrightarrow>
         priced s item \<and> first_sku s item = Some k"
    by (simp add: priced_def first_sku_def)
  have amount: "\<forall>item k n. first_sku s item = Some k \<and> li_quantity item = JNum n \<longrightarrow>
         line_amount s item = n * price k"
    by (simp add: line_amount_def)
  have zero: "\<forall>item. li_quantity item = JNum 0 \<or> li_quantity item = JNaN \<longrightarrow> line_amount s item = 0"
    by (auto simp add: line_amount_def)
  define r where "r = run es (new_Store page)"
  have "consistent r" unfolding r_def by (intro run_consistent new_Store_consistent)
  then have "list_all (counted r) (lineItems r)" by (simp add: consistent_def)
  then have reached: "list_all (\<lambda>item. priced r item
      \<and> quantity r (li_product item) = Some (or_zero (li_quantity item))) (lineItems r)"
    by (simp add: list_all_iff counted_def)
  from rounded exact raises first amount zero reached show ?thesis
    unfolding r_def by (intro conjI)
qed

lemma shirt_3_order:
  "lineItems (snd (updateQuantity ''shirt'' (typed ''3'' loaded))) =
     [\<lparr>li_product = ''shirt'', li_sku = ''sku_shirt'', li_quantity = JNum 3\<rparr>]
   \<and> products (snd (updateQuantity ''shirt'' (typed ''3'' loaded))) = [(''shirt'', shirt)]"
proof -
  have input: "inputs (document (typed ''3'' loaded)) ''shirt'' = Some ''3''"
    by (simp add: typed_def)
  have "lineItems (snd (updateQuantity ''shirt'' (typed ''3'' loaded))) =
      [\<lparr>li_product = ''shirt'', li_sku = ''sku_shirt'', li_quantity = JNum 3\<rparr>]"
    unfolding updateQuantity_lineItems [OF input] parseInt_3
    by (simp add: typed_def loaded_eq)
  moreover have "products (snd (updateQuantity ''shirt'' (typed ''3'' loaded))) = [(''shirt'', shirt)]"
    using updateQuantity_unchanged [of "''shirt''" "typed ''3'' loaded"]
    by (simp add: typed_def loaded_eq)
  ultimately show ?thesis by simp
qed

theorem getPaymentTotal_sum_witness:
  "list_all (priced (snd (updateQuantity ''shirt'' (typed ''3'' loaded))))
     (lineItems (snd (updateQuantity ''shirt'' (typed ''3'' loaded))))
   \<and> (\<Sum>item\<leftarrow>lineItems (snd (updateQuantity ''shirt'' (typed ''3'' loaded))).
        \<bar>line_amount (snd (updateQuantity ''shirt'' (typed ''3'' loaded))) item\<bar>) = 3000
   \<and> getPaymentTotal (snd (updateQuantity ''shirt'' (typed ''3'' loaded))) = Inr 3000"
proof -
  define s where "s = snd (updateQuantity ''shirt'' (typed ''3'' loaded))"
  have items: "lineItems s = [\<lparr>li_product = ''shirt'', li_sku = ''sku_shirt'', li_quantity = JNum 3\<rparr>]"
    and cat: "products s = [(''shirt'', shirt)]"
    using shirt_3_order by (simp_all add: s_def)
  have h: "list_all (priced s) (lineItems s)"
    by (simp add: items cat priced_def first_sku_def demo_defs)
  have amounts: "(\<Sum>item\<leftarrow>lineItems s. \<bar>line_amount s item\<bar>) = 3000"
    by (simp add: items cat line_amount_def first_sku_def demo_defs)
  have "list_all (priced s) (lineItems s)
        \<and> (\<Sum>item\<leftarrow>lineItems s. \<bar>line_amount s item\<bar>) < 2 ^ 53 \<longrightarrow>
      getPaymentTotal s = Inr (\<Sum>item\<leftarrow>lineItems s. line_amount s item)"
    using getPaymentTotal_sum [of s "[]" demo_page] by (elim conjE)
  with h amounts have "getPaymentTotal s = Inr 3000"
    by (simp add: items cat line_amount_def first_sku_def demo_defs)
  with h amounts show ?thesis unfolding s_def by simp
qed

text \<open>
  The claim as the specification words it fails on the shirt, whose first SKU costs 1000,
  ordered \<open>9007199254740991\<close> times: the product of the quantity and the price is no
  double, and \<open>getPaymentTotal\<close> returns the double next to it.
\<close>

theorem getPaymentTotal_sum_counterexample:
  "lineItems large_order =
     [\<lparr>li_product = ''shirt'', li_sku = ''sku_shirt'', li_quantity = JNum 9007199254740991\<rparr>]
   \<and> map_of (products large_order) ''shirt'' = Some shirt
   \<and> skus shirt = Some [shirt_sku] \<and> price shirt_sku = 1000
   \<and> getPaymentTotal large_order = Inr 9007199254740990976
   \<and> getPaymentTotal large_order \<noteq> Inr (9007199254740991 * 1000)"
proof -
  have input: "inputs (document (typed ''9007199254740991'' loaded)) ''shirt'' = Some ''9007199254740991''"
    by (simp add: typed_def)
  have parsed: "parseInt ''9007199254740991'' = JNum 9007199254740991"
    by (simp add: parse_defs)
  have items: "lineItems large_order =
      [\<lparr>li_product = ''shirt'', li_sku = ''sku_shirt'', li_quantity = JNum 9007199254740991\<rparr>]"
    unfolding large_order_def updateQuantity_lineItems [OF input] parsed
    by (simp add: typed_def loaded_eq)
  have cat: "products large_order = [(''shirt'', shirt)]"
    using updateQuantity_unchanged [of "''shirt''" "typed ''9007199254740991'' loaded"]
    by (simp add: large_order_def typed_def loaded_eq)
  have "bits 9007199254740991000 = 63" by (simp add: bits.simps)
  then have rounded: "to_double 9007199254740991000 = 9007199254740990976"
    by (simp add: to_double_def Let_def)
  have "bits 9007199254740990976 = 63" by (simp add: bits.simps)
  then have double: "to_double 9007199254740990976 = 9007199254740990976"
    by (simp add: to_double_def Let_def)
  have total: "getPaymentTotal large_order = Inr 9007199254740990976"
    by (simp add: getPaymentTotal_def items cat unit_price_def demo_defs rounded double)
  with items cat show ?thesis by (simp add: demo_defs)
qed

subsection \<open>A catalog that cannot be loaded\<close>

lemma step_abandoned:
  assumes "loader s = Abandoned" and "productsFetchPromise s = Some p" and "lineItems s = []"
  shows "loader (step e s) = Abandoned \<and> productsFetchPromise (step e s) = Some p
         \<and> lineItems (step e s) = []"
proof (cases e)
  case (IntentSettle out)
  with assms show ?thesis
    by (cases out) (simp_all add: createPaymentIntent_settle_def Let_def split: option.splits)
next
  case (CallGetConfig out)
  with assms show ?thesis by (cases out) (simp_all add: getConfig_def Let_def)
next
  case (Input pid v)
  show ?thesis
  proof (cases "inputs (document s) pid")
    case None
    with Input assms show ?thesis by simp
  next
    case (Some old)
    define t where "t = s\<lparr>document := (document s)\<lparr>inputs := (inputs (document s))(pid \<mapsto> v)\<rparr>\<rparr>"
    have input: "inputs (document t) pid = Some v" by (simp add: t_def)
    from Input Some have "step e s = snd (updateQuantity pid t)" by (simp add: t_def)
    with updateQuantity_unchanged [of pid t] updateQuantity_lineItems [OF input] assms
    show ?thesis by (simp add: t_def)
  qed
qed (use assms in \<open>simp_all add: loadProducts_def\<close>)

lemma run_abandoned:
  "loader s = Abandoned \<Longrightarrow> productsFetchPromise s = Some p \<Longrightarrow> lineItems s = [] \<Longrightarrow>
   loader (run es s) = Abandoned \<and> lineItems (run es s) = []"
proof (induction es arbitrary: s)
  case Nil
  then show ?case by simp
next
  case (Cons e es)
  from step_abandoned [OF Cons.prems, of e] Cons.IH [of "step e s"] show ?case by simp
qed

text \<open>
  When the request for \<open>/products\<close> rejects, or its answer holds no product, the
  executor ends before \<open>resolve()\<close>, and nothing that happens later on the page resolves
  the promise that \<open>loadProducts\<close> returned: \<open>displayPaymentSummary\<close> waits for ever
  and the order has no line items. \<open>loadProducts\<close> has no \<open>catch\<close> and returns no error
  object.
\<close>

theorem failed_load_never_resolves:
  assumes "out = FetchRejects e \<or> out = JsonRejects e \<or> out = Json []"
  shows "loader (run es (step (ProductsSettle out) (new_Store page))) = Abandoned
         \<and> lineItems (run es (step (ProductsSettle out) (new_Store page))) = []
         \<and> loadProducts (run es (step (ProductsSettle out) (new_Store page))) =
             (0, run es (step (ProductsSettle out) (new_Store page)))"
proof -
  define s where "s = step (ProductsSettle out) (new_Store page)"
  from assms have start: "loader s = Abandoned" "productsFetchPromise s = Some 0" "lineItems s = []"
    by (auto simp add: s_def new_Store_def fresh_def loadProducts_def products_settle_def)
  from run_abandoned [OF start, of es]
  have "loader (run es s) = Abandoned" "lineItems (run es s) = []" by simp_all
  moreover from run_keeps_promise [OF start(2), of es]
  have "loadProducts (run es s) = (0, run es s)" by (simp add: loadProducts_def)
  ultimately show ?thesis unfolding s_def by (intro conjI)
qed

theorem failed_load_never_resolves_witness:
  "loader (run [CallLoadProducts, CallGetConfig (Json demo_config), Input ''shirt'' ''1'']
      (step (ProductsSettle (FetchRejects (TypeError ''Failed to fetch''))) (new_Store demo_page)))
     = Abandoned
   \<and> lineItems (run [CallLoadProducts, CallGetConfig (Json demo_config), Input ''shirt'' ''1'']
      (step (ProductsSettle (FetchRejects (TypeError ''Failed to fetch''))) (new_Store demo_page)))
     = []"
  using failed_load_never_resolves
    [of "FetchRejects (TypeError ''Failed to fetch'')" "TypeError ''Failed to fetch''"
        "[CallLoadProducts, CallGetConfig (Json demo_config), Input ''shirt'' ''1'']" demo_page]
  by simp

end
